theory Spec2Isabelle
  imports Complex_Main "HOL-Library.Monad_Syntax"
begin

section \<open>Data model of the planar graph editor\<close>

text \<open>
  The class \<open>Graph\<close> of \<open>app.js\<close> keeps its state in fields of \<open>this\<close>. A position is an
  object with fields \<open>x\<close> and \<open>y\<close>; a vertex carries in addition a visibility flag and an
  identifier. JavaScript numbers are modelled as exact reals for coordinates (rounding, overflow
  and NaN are outside the model) and as naturals for indices and identifiers (identifiers stay far
  below \<open>2^53\<close>). An array index that is out of range reads \<open>undefined\<close>, modelled by \<open>None\<close>;
  a property access on \<open>undefined\<close> throws a TypeError, and a function that can throw returns an
  \<open>option\<close> whose \<open>None\<close> stands for "no value is returned".
\<close>

record point =
  px :: real
  py :: real

record vertex = point +
  visible :: bool
  vid :: nat

record graph =
  vertices :: "vertex list"
  edges :: "(nat \<times> nat) list"
  periphery :: "nat list"
  selectedVertices :: "nat list"
  segmentVertices :: "nat list"
  hoveredVertex :: int
  manualMode :: bool
  showIndices :: bool
  maxVertexId :: nat
  vertexRadius :: real

definition pos :: "vertex \<Rightarrow> point" where
  "pos v = \<lparr>px = px v, py = py v\<rparr>"

definition vertexAt :: "graph \<Rightarrow> nat \<Rightarrow> vertex option" where
  "vertexAt g i = (if i < length (vertices g) then Some (vertices g ! i) else None)"

definition peripheryAt :: "graph \<Rightarrow> nat \<Rightarrow> nat option" where
  "peripheryAt g i = (if i < length (periphery g) then Some (periphery g ! i) else None)"

definition initializeTriangle :: "graph \<Rightarrow> graph" where
  "initializeTriangle g = g\<lparr>
     vertices := [\<lparr>px = 0, py = -100, visible = True, vid = 1\<rparr>,
                  \<lparr>px = -87, py = 50, visible = True, vid = 2\<rparr>,
                  \<lparr>px = 87, py = 50, visible = True, vid = 3\<rparr>],
     edges := [(0, 1), (1, 2), (2, 0)],
     periphery := [0, 1, 2],
     selectedVertices := [],
     segmentVertices := [],
     hoveredVertex := -1,
     maxVertexId := 3\<rparr>"

text \<open>The constructor: empty fields, then \<open>initializeTriangle\<close>.\<close>

definition newGraph :: graph where
  "newGraph = initializeTriangle
     \<lparr>vertices = [], edges = [], periphery = [], selectedVertices = [], segmentVertices = [],
      hoveredVertex = -1, manualMode = False, showIndices = False, maxVertexId = 0,
      vertexRadius = 15\<rparr>"

section \<open>Geometry primitives\<close>

definition ccw :: "point \<Rightarrow> point \<Rightarrow> point \<Rightarrow> bool" where
  "ccw A B C \<longleftrightarrow> (py C - py A) * (px B - px A) > (py B - py A) * (px C - px A)"

definition segmentsIntersect :: "point \<Rightarrow> point \<Rightarrow> point \<Rightarrow> point \<Rightarrow> bool" where
  "segmentsIntersect p1 p2 p3 p4 \<longleftrightarrow>
     (ccw p1 p3 p4 \<noteq> ccw p2 p3 p4) \<and> (ccw p1 p2 p3 \<noteq> ccw p1 p2 p4)"

definition distance :: "point \<Rightarrow> point \<Rightarrow> real" where
  "distance p1 p2 = sqrt ((px p1 - px p2)\<^sup>2 + (py p1 - py p2)\<^sup>2)"

definition pointToLineDistance :: "point \<Rightarrow> point \<Rightarrow> point \<Rightarrow> real" where
  "pointToLineDistance p lineStart lineEnd =
     (let A = px lineEnd - px lineStart;
          B = py lineEnd - py lineStart;
          C = px p - px lineStart;
          D = py p - py lineStart;
          dot = A * C + B * D;
          lenSq = A * A + B * B
      in if lenSq = 0 then distance p lineStart
         else let param = max 0 (min 1 (dot / lenSq));
                  closest = \<lparr>px = px lineStart + param * A, py = py lineStart + param * B\<rparr>
              in distance p closest)"

definition normalizeVector :: "point \<Rightarrow> point" where
  "normalizeVector v =
     (let len = sqrt (px v * px v + py v * py v)
      in if len = 0 then \<lparr>px = 1, py = 0\<rparr> else \<lparr>px = px v / len, py = py v / len\<rparr>)"

text \<open>
  \<open>Math.atan2\<close> on finite arguments (the zero differences that occur here are \<open>+0\<close>).
\<close>

definition atan2 :: "real \<Rightarrow> real \<Rightarrow> real" where
  "atan2 b a =
     (if 0 < a then arctan (b / a)
      else if a < 0 then (if 0 \<le> b then arctan (b / a) + pi else arctan (b / a) - pi)
      else if 0 < b then pi / 2
      else if b < 0 then - pi / 2
      else 0)"

definition calculatePolygonCenter :: "point list \<Rightarrow> point" where
  "calculatePolygonCenter polygon =
     (let (cx, cy) = fold (\<lambda>v (cx, cy). (cx + px v, cy + py v)) polygon (0, 0)
      in \<lparr>px = cx / real (length polygon), py = cy / real (length polygon)\<rparr>)"

definition expandPolygon :: "point list \<Rightarrow> real \<Rightarrow> point list" where
  "expandPolygon polygon margin =
     (let center = calculatePolygonCenter polygon
      in map (\<lambda>v.
           let dx = px v - px center;
               dy = py v - py center;
               len = sqrt (dx * dx + dy * dy)
           in if len = 0 then v
              else \<lparr>px = px v + dx / len * margin, py = py v + dy / len * margin\<rparr>) polygon)"

text \<open>
  The ray-casting loop \<open>for (i = 0, j = n - 1; i < n; j = i++)\<close>. The division is evaluated only
  when the first conjunct holds, and then the divisor is not zero.
\<close>

definition pointInPolygon :: "point \<Rightarrow> point list \<Rightarrow> bool" where
  "pointInPolygon p polygon =
     fst (fold (\<lambda>i (inside, j).
            (if ((py (polygon ! i) > py p) \<noteq> (py (polygon ! j) > py p)) \<and>
                px p < (px (polygon ! j) - px (polygon ! i)) * (py p - py (polygon ! i))
                         / (py (polygon ! j) - py (polygon ! i)) + px (polygon ! i)
             then \<not> inside else inside, i))
          [0..<length polygon] (False, length polygon - 1))"

section \<open>Convex hull\<close>

text \<open>
  The hull is a list of vertex objects of \<open>this.vertices\<close>. \<open>updatePeriphery\<close> maps each of them
  back to its index by object identity, so the model carries the index with the vertex: two
  vertices with equal fields stay distinct.
\<close>

type_synonym ivertex = "nat \<times> vertex"

definition ipos :: "ivertex \<Rightarrow> point" where
  "ipos iv = pos (snd iv)"

definition visibleVertices :: "graph \<Rightarrow> ivertex list" where
  "visibleVertices g = filter (\<lambda>iv. visible (snd iv)) (enumerate 0 (vertices g))"

text \<open>The anchor: the largest \<open>y\<close>, and the smallest \<open>x\<close> among equal \<open>y\<close>.\<close>

definition hullStart :: "ivertex list \<Rightarrow> nat" where
  "hullStart vs =
     fold (\<lambda>i start.
            if py (snd (vs ! i)) > py (snd (vs ! start)) \<or>
               (py (snd (vs ! i)) = py (snd (vs ! start)) \<and> px (snd (vs ! i)) < px (snd (vs ! start)))
            then i else start)
          [1..<length vs] 0"

definition polarAngle :: "ivertex \<Rightarrow> ivertex \<Rightarrow> real" where
  "polarAngle startPoint a =
     atan2 (py (snd a) - py (snd startPoint)) (px (snd a) - px (snd startPoint))"

text \<open>
  \<open>Array.prototype.sort\<close> with the comparator \<open>angleA - angleB\<close>: a stable sort by the angle,
  which is what \<^const>\<open>sort_key\<close> (insertion sort) is.
\<close>

definition sortedPoints :: "ivertex list \<Rightarrow> nat \<Rightarrow> ivertex list" where
  "sortedPoints vs start =
     sort_key (polarAngle (vs ! start))
       (map snd (filter (\<lambda>ka. fst ka \<noteq> start) (enumerate 0 vs)))"

text \<open>\<open>this.ccw\<close> returns a boolean, and \<open>boolean <= 0\<close> compares its numeric value.\<close>

definition boolToNumber :: "bool \<Rightarrow> int" where
  "boolToNumber b = (if b then 1 else 0)"

function hullPop :: "ivertex list \<Rightarrow> ivertex \<Rightarrow> ivertex list" where
  "hullPop hl p =
     (if length hl > 1 \<and>
         boolToNumber (ccw (ipos (hl ! (length hl - 2))) (ipos (hl ! (length hl - 1))) (ipos p)) \<le> 0
      then hullPop (butlast hl) p
      else hl)"
  by pat_completeness auto
termination
  by (relation "measure (\<lambda>(hl, p). length hl)") auto

declare hullPop.simps [simp del]

definition getConvexHull :: "graph \<Rightarrow> ivertex list" where
  "getConvexHull g =
     (let vs = visibleVertices g
      in if length vs < 3 then vs
         else let start = hullStart vs;
                  startPoint = vs ! start
              in fold (\<lambda>p hl. hullPop hl p @ [p]) (sortedPoints vs start) [startPoint])"

definition isOutsideGraph :: "graph \<Rightarrow> real \<Rightarrow> real \<Rightarrow> real \<Rightarrow> bool" where
  "isOutsideGraph g a b margin =
     (let hl = map ipos (getConvexHull g)
      in if length hl < 3 then True
         else if margin > 0 then \<not> pointInPolygon \<lparr>px = a, py = b\<rparr> (expandPolygon hl margin)
         else \<not> pointInPolygon \<lparr>px = a, py = b\<rparr> hl)"

section \<open>Validation of a candidate position\<close>

datatype reason =
    TooCloseToVertex
  | TooCloseToEdge
  | NotOutsideGraph
  | IntersectsExistingEdge nat nat
  | NewEdgesIntersect
  | CrossingDetected nat nat nat nat

datatype validation = Valid | Invalid reason

text \<open>
  An edge object \<open>{start, end}\<close>. The start is always an object; the end of a new edge is
  \<open>this.vertices[vIdx]\<close> and may be \<open>undefined\<close>.
\<close>

type_synonym edgeObj = "point \<times> point option"

definition edgesShareVertex :: "edgeObj \<Rightarrow> edgeObj \<Rightarrow> bool" where
  "edgesShareVertex edge1 edge2 =
     (case (snd edge1, snd edge2) of
        (Some end1, Some end2) \<Rightarrow>
          distance (fst edge1) (fst edge2) < 0.001 \<or>
          distance (fst edge1) end2 < 0.001 \<or>
          distance end1 (fst edge2) < 0.001 \<or>
          distance end1 end2 < 0.001
      | _ \<Rightarrow> False)"

text \<open>
  \<open>segmentsIntersect\<close> called with end points that may be \<open>undefined\<close>: its first conjunct
  reads all four arguments, so an undefined one throws.
\<close>

definition segmentsIntersectJS :: "point \<Rightarrow> point option \<Rightarrow> point \<Rightarrow> point option \<Rightarrow> bool option" where
  "segmentsIntersectJS p1 p2 p3 p4 =
     (case (p2, p4) of
        (Some q2, Some q4) \<Rightarrow> Some (segmentsIntersect p1 q2 p3 q4)
      | _ \<Rightarrow> None)"

fun existingEdgesLoop :: "graph \<Rightarrow> edgeObj \<Rightarrow> (nat \<times> nat) list \<Rightarrow> validation option" where
  "existingEdgesLoop g newEdge [] = Some Valid"
| "existingEdgesLoop g newEdge (existingEdge # rest) =
     (case vertexAt g (fst existingEdge) of
        None \<Rightarrow> None
      | Some v1 \<Rightarrow>
          if \<not> visible v1 then existingEdgesLoop g newEdge rest
          else (case vertexAt g (snd existingEdge) of
             None \<Rightarrow> None
           | Some v2 \<Rightarrow>
               if \<not> visible v2 then existingEdgesLoop g newEdge rest
               else if edgesShareVertex newEdge (pos v1, Some (pos v2))
                 then existingEdgesLoop g newEdge rest
               else (case segmentsIntersectJS (fst newEdge) (snd newEdge) (pos v1) (Some (pos v2)) of
                  None \<Rightarrow> None
                | Some True \<Rightarrow> Some (Invalid (IntersectsExistingEdge (vid v1) (vid v2)))
                | Some False \<Rightarrow> existingEdgesLoop g newEdge rest)))"

text \<open>The inner loop over the new edges; \<open>newEdge === otherNewEdge\<close> compares array positions.\<close>

fun otherNewEdgesLoop :: "nat \<times> edgeObj \<Rightarrow> (nat \<times> edgeObj) list \<Rightarrow> validation option" where
  "otherNewEdgesLoop newEdge [] = Some Valid"
| "otherNewEdgesLoop newEdge (otherNewEdge # rest) =
     (if fst newEdge = fst otherNewEdge then otherNewEdgesLoop newEdge rest
      else if \<not> edgesShareVertex (snd newEdge) (snd otherNewEdge)
        then (case segmentsIntersectJS (fst (snd newEdge)) (snd (snd newEdge))
                     (fst (snd otherNewEdge)) (snd (snd otherNewEdge)) of
                None \<Rightarrow> None
              | Some True \<Rightarrow> Some (Invalid NewEdgesIntersect)
              | Some False \<Rightarrow> otherNewEdgesLoop newEdge rest)
      else otherNewEdgesLoop newEdge rest)"

fun newEdgesLoop :: "graph \<Rightarrow> (nat \<times> edgeObj) list \<Rightarrow> (nat \<times> edgeObj) list \<Rightarrow> validation option" where
  "newEdgesLoop g newEdges [] = Some Valid"
| "newEdgesLoop g newEdges (newEdge # rest) =
     (case existingEdgesLoop g (snd newEdge) (edges g) of
        None \<Rightarrow> None
      | Some (Invalid m) \<Rightarrow> Some (Invalid m)
      | Some Valid \<Rightarrow>
          (case otherNewEdgesLoop newEdge newEdges of
             None \<Rightarrow> None
           | Some (Invalid m) \<Rightarrow> Some (Invalid m)
           | Some Valid \<Rightarrow> newEdgesLoop g newEdges rest))"

definition validateNewEdges :: "graph \<Rightarrow> point \<Rightarrow> nat list \<Rightarrow> validation option" where
  "validateNewEdges g newVertexPos segs =
     (let newEdges = enumerate 0
            (map (\<lambda>vIdx. (newVertexPos, map_option pos (vertexAt g vIdx))) segs)
      in newEdgesLoop g newEdges newEdges)"

fun edgeDistanceLoop :: "graph \<Rightarrow> point \<Rightarrow> (nat \<times> nat) list \<Rightarrow> bool option" where
  "edgeDistanceLoop g candidate [] = Some True"
| "edgeDistanceLoop g candidate (e # rest) =
     (case vertexAt g (fst e) of
        None \<Rightarrow> None
      | Some vi \<Rightarrow>
          if \<not> visible vi then edgeDistanceLoop g candidate rest
          else (case vertexAt g (snd e) of
             None \<Rightarrow> None
           | Some vj \<Rightarrow>
               if \<not> visible vj then edgeDistanceLoop g candidate rest
               else if pointToLineDistance candidate (pos vi) (pos vj) < 30 then Some False
               else edgeDistanceLoop g candidate rest))"

definition validateBasicPosition :: "graph \<Rightarrow> point \<Rightarrow> validation option" where
  "validateBasicPosition g candidate =
     (case find (\<lambda>v. visible v \<and> distance candidate (pos v) < 50) (vertices g) of
        Some v \<Rightarrow> Some (Invalid TooCloseToVertex)
      | None \<Rightarrow>
          (case edgeDistanceLoop g candidate (edges g) of
             None \<Rightarrow> None
           | Some False \<Rightarrow> Some (Invalid TooCloseToEdge)
           | Some True \<Rightarrow>
               if \<not> isOutsideGraph g (px candidate) (py candidate) 40
               then Some (Invalid NotOutsideGraph)
               else Some Valid))"

section \<open>Placement search\<close>

text \<open>
  The two centroids divide by a count. A zero count gives NaN in JavaScript, which the real
  numbers do not have: the model returns no value there.
\<close>

fun centroidLoop :: "graph \<Rightarrow> nat list \<Rightarrow> real \<times> real \<Rightarrow> (real \<times> real) option" where
  "centroidLoop g [] acc = Some acc"
| "centroidLoop g (vIdx # rest) acc =
     (case vertexAt g vIdx of
        None \<Rightarrow> None
      | Some v \<Rightarrow> centroidLoop g rest (fst acc + px v, snd acc + py v))"

definition calculateCentroid :: "graph \<Rightarrow> nat list \<Rightarrow> point option" where
  "calculateCentroid g segs =
     (case centroidLoop g segs (0, 0) of
        None \<Rightarrow> None
      | Some (cx, cy) \<Rightarrow>
          if length segs = 0 then None
          else Some \<lparr>px = cx / real (length segs), py = cy / real (length segs)\<rparr>)"

definition calculateGraphCenter :: "graph \<Rightarrow> point option" where
  "calculateGraphCenter g =
     (let vs = filter visible (vertices g);
          (gx, gy) = fold (\<lambda>v (gx, gy). (gx + px v, gy + py v)) vs (0, 0)
      in if length vs = 0 then None
         else Some \<lparr>px = gx / real (length vs), py = gy / real (length vs)\<rparr>)"

definition candidateAt :: "point \<Rightarrow> point \<Rightarrow> nat \<Rightarrow> point" where
  "candidateAt centroid direction attempt =
     (let dist = 80 + real attempt * 20;
          angleOffset = real (attempt mod 8) * (pi / 4);
          testDirection =
            \<lparr>px = px direction * cos angleOffset - py direction * sin angleOffset,
             py = px direction * sin angleOffset + py direction * cos angleOffset\<rparr>
      in \<lparr>px = px centroid + px testDirection * dist,
          py = py centroid + py testDirection * dist\<rparr>)"

function searchLoop :: "graph \<Rightarrow> nat list \<Rightarrow> point \<Rightarrow> point \<Rightarrow> nat \<Rightarrow> point option option" where
  "searchLoop g segs centroid direction attempt =
     (if attempt < 32 then
        (let candidate = candidateAt centroid direction attempt
         in case validateBasicPosition g candidate of
              None \<Rightarrow> None
            | Some (Invalid m) \<Rightarrow> searchLoop g segs centroid direction (attempt + 1)
            | Some Valid \<Rightarrow>
                (case validateNewEdges g candidate segs of
                   None \<Rightarrow> None
                 | Some Valid \<Rightarrow> Some (Some candidate)
                 | Some (Invalid m) \<Rightarrow> searchLoop g segs centroid direction (attempt + 1)))
      else Some None)"
  by pat_completeness auto
termination
  by (relation "measure (\<lambda>(g, segs, centroid, direction, attempt). 32 - attempt)") auto

declare searchLoop.simps [simp del]

text \<open>
  The method in state-passing form: it returns the position (or \<open>null\<close>) together with the
  graph it leaves behind.
\<close>

definition findNonIntersectingPosition :: "graph \<Rightarrow> nat list \<Rightarrow> (point option \<times> graph) option" where
  "findNonIntersectingPosition g segs =
     (case calculateCentroid g segs of
        None \<Rightarrow> None
      | Some centroid \<Rightarrow>
          (case calculateGraphCenter g of
             None \<Rightarrow> None
           | Some graphCenter \<Rightarrow>
               (let direction = normalizeVector
                      \<lparr>px = px centroid - px graphCenter, py = py centroid - py graphCenter\<rparr>
                in case searchLoop g segs centroid direction 0 of
                     None \<Rightarrow> None
                   | Some r \<Rightarrow> Some (r, g))))"

section \<open>Periphery\<close>

text \<open>
  \<open>getPeripherySegment\<close> walks the periphery with \<open>current = (current + 1) % n\<close> until it reaches
  \<open>endIdx\<close>. For an empty periphery the remainder is NaN, which equals no index. The loop has no
  bound of its own, so it is a partial function: \<open>None\<close> is the run that never returns. The
  elements pushed are \<open>this.periphery[current]\<close>, \<open>undefined\<close> when out of range.
\<close>

datatype jsnum = Num nat | NaN

definition nextPosition :: "nat \<Rightarrow> jsnum \<Rightarrow> jsnum" where
  "nextPosition n current =
     (case current of
        NaN \<Rightarrow> NaN
      | Num k \<Rightarrow> if n = 0 then NaN else Num ((k + 1) mod n))"

definition peripheryAtJS :: "graph \<Rightarrow> jsnum \<Rightarrow> nat option" where
  "peripheryAtJS g current = (case current of NaN \<Rightarrow> None | Num k \<Rightarrow> peripheryAt g k)"

partial_function (option) segmentLoop ::
  "graph \<Rightarrow> jsnum \<Rightarrow> nat \<Rightarrow> nat option list \<Rightarrow> nat option list option" where
  "segmentLoop g current endIdx segment =
     (let segment' = segment @ [peripheryAtJS g current]
      in if current = Num endIdx then Some segment'
         else segmentLoop g (nextPosition (length (periphery g)) current) endIdx segment')"

definition getPeripherySegment :: "graph \<Rightarrow> nat \<Rightarrow> nat \<Rightarrow> nat option list option" where
  "getPeripherySegment g startIdx endIdx =
     (if startIdx = endIdx then Some [peripheryAt g startIdx]
      else segmentLoop g (Num startIdx) endIdx [])"

text \<open>The signed-area loop of \<open>ensureClockwiseOrder\<close>.\<close>

definition peripheryArea :: "graph \<Rightarrow> real option" where
  "peripheryArea g =
     fold (\<lambda>i area.
            case area of
              None \<Rightarrow> None
            | Some a \<Rightarrow>
                (case vertexAt g (periphery g ! i) of
                   None \<Rightarrow> None
                 | Some vi \<Rightarrow>
                     (case vertexAt g (periphery g ! ((i + 1) mod length (periphery g))) of
                        None \<Rightarrow> None
                      | Some vj \<Rightarrow> Some (a + (px vj - px vi) * (py vj + py vi)))))
          [0..<length (periphery g)] (Some 0)"

definition ensureClockwiseOrder :: "graph \<Rightarrow> graph option" where
  "ensureClockwiseOrder g =
     (if length (periphery g) < 3 then Some g
      else case peripheryArea g of
             None \<Rightarrow> None
           | Some area \<Rightarrow>
               if area < 0 then Some (g\<lparr>periphery := rev (periphery g)\<rparr>) else Some g)"

definition updatePeriphery :: "graph \<Rightarrow> graph option" where
  "updatePeriphery g =
     (let hl = getConvexHull g
      in ensureClockwiseOrder (g\<lparr>periphery := map fst hl\<rparr>))"

definition updatePeripheryAfterSegmentReplacement :: "graph \<Rightarrow> nat \<Rightarrow> nat \<Rightarrow> nat \<Rightarrow> graph option" where
  "updatePeripheryAfterSegmentReplacement g startIdx endIdx newVertexIdx =
     (let newPeriphery =
            (if startIdx \<le> endIdx
             then take startIdx (periphery g) @ [newVertexIdx] @ drop (endIdx + 1) (periphery g)
             else take (startIdx - (endIdx + 1)) (drop (endIdx + 1) (periphery g)) @ [newVertexIdx])
      in ensureClockwiseOrder (g\<lparr>periphery := newPeriphery\<rparr>))"

section \<open>Integrity scan\<close>

fun integrityInner :: "graph \<Rightarrow> nat \<times> nat \<Rightarrow> (nat \<times> nat) list \<Rightarrow> validation option" where
  "integrityInner g edge1 [] = Some Valid"
| "integrityInner g edge1 (edge2 # rest) =
     (if fst edge1 = fst edge2 \<or> fst edge1 = snd edge2 \<or>
         snd edge1 = fst edge2 \<or> snd edge1 = snd edge2
      then integrityInner g edge1 rest
      else (case vertexAt g (fst edge1) of None \<Rightarrow> None | Some v1 \<Rightarrow>
        if \<not> visible v1 then integrityInner g edge1 rest
        else (case vertexAt g (snd edge1) of None \<Rightarrow> None | Some v2 \<Rightarrow>
          if \<not> visible v2 then integrityInner g edge1 rest
          else (case vertexAt g (fst edge2) of None \<Rightarrow> None | Some v3 \<Rightarrow>
            if \<not> visible v3 then integrityInner g edge1 rest
            else (case vertexAt g (snd edge2) of None \<Rightarrow> None | Some v4 \<Rightarrow>
              if \<not> visible v4 then integrityInner g edge1 rest
              else if segmentsIntersect (pos v1) (pos v2) (pos v3) (pos v4)
                then Some (Invalid (CrossingDetected (vid v1) (vid v2) (vid v3) (vid v4)))
              else integrityInner g edge1 rest)))))"

fun integrityOuter :: "graph \<Rightarrow> (nat \<times> nat) list \<Rightarrow> validation option" where
  "integrityOuter g [] = Some Valid"
| "integrityOuter g (edge1 # rest) =
     (case integrityInner g edge1 rest of
        None \<Rightarrow> None
      | Some (Invalid m) \<Rightarrow> Some (Invalid m)
      | Some Valid \<Rightarrow> integrityOuter g rest)"

definition validateGraphIntegrity :: "graph \<Rightarrow> validation option" where
  "validateGraphIntegrity g = integrityOuter g (edges g)"

section \<open>Insertion\<close>

datatype failure =
    NotTwoSelected
  | NotInPeriphery
  | SegmentTooShort
  | NoValidPlacement
  | CannotAddVertex reason
  | RolledBack reason
  | NeedTwoPeripheryVertices

text \<open>
  The result object: \<open>Success i k\<close> is the message "Added vertex V\<open>i\<close> connecting to segment of
  \<open>k\<close> vertices".
\<close>

datatype outcome = Success nat nat | Failure failure

fun indexOf :: "nat list \<Rightarrow> nat \<Rightarrow> nat option" where
  "indexOf [] v = None"
| "indexOf (a # as) v = (if a = v then Some 0 else map_option Suc (indexOf as v))"

text \<open>\<open>xs.slice(0, -k)\<close>; the end \<open>-0\<close> is \<open>0\<close>.\<close>

definition sliceDropLast :: "'a list \<Rightarrow> nat \<Rightarrow> 'a list" where
  "sliceDropLast xs k = (if k = 0 then [] else take (length xs - k) xs)"

text \<open>
  The commit of \<open>processSegmentSelection\<close>: the new vertex takes the incremented counter as its
  identifier, and one edge goes from it to every vertex of the segment.
\<close>

definition commitVertex :: "graph \<Rightarrow> point \<Rightarrow> graph" where
  "commitVertex g newPosition =
     (let newVertexIdx = length (vertices g);
          g1 = g\<lparr>maxVertexId := maxVertexId g + 1\<rparr>;
          g2 = g1\<lparr>vertices := vertices g1 @
                 [\<lparr>px = px newPosition, py = py newPosition, visible = True, vid = maxVertexId g1\<rparr>]\<rparr>
      in g2\<lparr>edges := edges g2 @ map (\<lambda>vIdx. (newVertexIdx, vIdx)) (segmentVertices g2)\<rparr>)"

text \<open>
  The rollback of \<open>processSegmentSelection\<close>: \<open>this.vertices.pop()\<close>, the slice that drops the
  edges just added, and \<open>updatePeriphery\<close>.
\<close>

definition rollback :: "graph \<Rightarrow> graph option" where
  "rollback g =
     (let g1 = g\<lparr>vertices := butlast (vertices g)\<rparr>;
          g2 = g1\<lparr>edges := sliceDropLast (edges g1) (length (segmentVertices g1))\<rparr>
      in updatePeriphery g2)"

text \<open>
  \<open>processSegmentSelection\<close> is given in four parts, in the order of its body: the integrity
  scan with rollback or success (\<open>checkAndFinish\<close>), the commit (\<open>commitInsertion\<close>), the search
  with the final validation (\<open>placeVertex\<close>), and the checks of the selection. The positions
  passed to \<open>getPeripherySegment\<close> come from \<open>indexOf\<close>, so every element of the segment is
  defined; \<^const>\<open>those\<close> turns the list of defined elements into the index list.
\<close>

definition checkAndFinish :: "graph \<Rightarrow> (outcome \<times> graph) option" where
  "checkAndFinish g =
     (case validateGraphIntegrity g of
        None \<Rightarrow> None
      | Some (Invalid m) \<Rightarrow>
          (case rollback g of
             None \<Rightarrow> None
           | Some g1 \<Rightarrow> Some (Failure (RolledBack m), g1))
      | Some Valid \<Rightarrow>
          (let g1 = g\<lparr>selectedVertices := []\<rparr>;
               g2 = g1\<lparr>segmentVertices := []\<rparr>
           in Some (Success (maxVertexId g2) (length (segmentVertices g2)), g2)))"

definition commitInsertion :: "graph \<Rightarrow> point \<Rightarrow> nat \<Rightarrow> nat \<Rightarrow> (outcome \<times> graph) option" where
  "commitInsertion g newPosition p1Idx p2Idx =
     (let newVertexIdx = length (vertices g)
      in case updatePeripheryAfterSegmentReplacement (commitVertex g newPosition)
                p1Idx p2Idx newVertexIdx of
           None \<Rightarrow> None
         | Some g1 \<Rightarrow> checkAndFinish g1)"

definition placeVertex :: "graph \<Rightarrow> nat \<Rightarrow> nat \<Rightarrow> (outcome \<times> graph) option" where
  "placeVertex g p1Idx p2Idx =
     (case findNonIntersectingPosition g (segmentVertices g) of
        None \<Rightarrow> None
      | Some (None, g1) \<Rightarrow> Some (Failure NoValidPlacement, g1)
      | Some (Some newPosition, g1) \<Rightarrow>
          (case validateNewEdges g1 newPosition (segmentVertices g1) of
             None \<Rightarrow> None
           | Some (Invalid m) \<Rightarrow> Some (Failure (CannotAddVertex m), g1)
           | Some Valid \<Rightarrow> commitInsertion g1 newPosition p1Idx p2Idx))"

definition processSegmentSelection :: "graph \<Rightarrow> (outcome \<times> graph) option" where
  "processSegmentSelection g =
     (if length (selectedVertices g) \<noteq> 2 then Some (Failure NotTwoSelected, g)
      else
        let v1Idx = selectedVertices g ! 0;
            v2Idx = selectedVertices g ! 1
        in case (indexOf (periphery g) v1Idx, indexOf (periphery g) v2Idx) of
             (Some p1Idx, Some p2Idx) \<Rightarrow>
               (case getPeripherySegment g p1Idx p2Idx of
                  None \<Rightarrow> None
                | Some segment \<Rightarrow>
                    (case those segment of
                       None \<Rightarrow> None
                     | Some segs \<Rightarrow>
                         (let g1 = g\<lparr>segmentVertices := segs\<rparr>
                          in if length (segmentVertices g1) < 2
                             then Some (Failure SegmentTooShort, g1)
                             else placeVertex g1 p1Idx p2Idx)))
           | _ \<Rightarrow> Some (Failure NotInPeriphery, g))"

text \<open>
  \<open>addRandomSegment\<close>, with the two values of \<open>Math.random()\<close> as parameters \<open>r1\<close> and \<open>r2\<close>;
  \<open>Math.random\<close> returns a number in \<open>[0, 1)\<close>, and the model returns no value for other
  parameters.
\<close>

definition addRandomSegment :: "graph \<Rightarrow> real \<Rightarrow> real \<Rightarrow> (outcome \<times> graph) option" where
  "addRandomSegment g r1 r2 =
     (if length (periphery g) < 2 then Some (Failure NeedTwoPeripheryVertices, g)
      else if \<not> (0 \<le> r1 \<and> r1 < 1 \<and> 0 \<le> r2 \<and> r2 < 1) then None
      else
        let maxSegmentSize = min 6 (length (periphery g));
            segmentSize = max 2 (nat \<lfloor>r1 * real (maxSegmentSize - 1)\<rfloor> + 2);
            startIdx = nat \<lfloor>r2 * real (length (periphery g))\<rfloor>;
            endIdx = (startIdx + segmentSize - 1) mod length (periphery g);
            g1 = g\<lparr>selectedVertices := [periphery g ! startIdx, periphery g ! endIdx]\<rparr>
        in case processSegmentSelection g1 of
             None \<Rightarrow> None
           | Some (result, g2) \<Rightarrow>
               Some (result, g2\<lparr>selectedVertices := [], segmentVertices := []\<rparr>))"

section \<open>Auxiliary definitions for the proofs\<close>


text \<open>Every identifier in the vertex list is at most the counter.\<close>

definition idsBounded :: "graph \<Rightarrow> bool" where
  "idsBounded g = list_all (\<lambda>v. vid v \<le> maxVertexId g) (vertices g)"


subsection \<open>The placement search in the words of the specification\<close>

text \<open>
  Attempt \<open>k\<close> rotates the base direction by \<open>(k mod 8) * 45\<close> degrees and goes the
  distance \<open>80 + 20 * k\<close> from the segment centroid. A candidate passes when it passes the
  distance and margin checks and then the intersection check. The search returns the first of
  the 32 candidates that passes, or \<open>null\<close>.
\<close>

definition rotateVector :: "point \<Rightarrow> real \<Rightarrow> point" where
  "rotateVector d angle =
     \<lparr>px = px d * cos angle - py d * sin angle, py = px d * sin angle + py d * cos angle\<rparr>"

definition degrees :: "real \<Rightarrow> real" where
  "degrees a = a * pi / 180"

definition specCandidate :: "point \<Rightarrow> point \<Rightarrow> nat \<Rightarrow> point" where
  "specCandidate centroid direction k =
     (let r = rotateVector direction (degrees (real (k mod 8) * 45));
          dist = 80 + 20 * real k
      in \<lparr>px = px centroid + dist * px r, py = py centroid + dist * py r\<rparr>)"

definition passesChecks :: "graph \<Rightarrow> nat list \<Rightarrow> point \<Rightarrow> bool option" where
  "passesChecks g segs c =
     (case validateBasicPosition g c of
        None \<Rightarrow> None
      | Some (Invalid m) \<Rightarrow> Some False
      | Some Valid \<Rightarrow>
          (case validateNewEdges g c segs of
             None \<Rightarrow> None
           | Some (Invalid m) \<Rightarrow> Some False
           | Some Valid \<Rightarrow> Some True))"

fun firstPassing :: "graph \<Rightarrow> nat list \<Rightarrow> point list \<Rightarrow> point option option" where
  "firstPassing g segs [] = Some None"
| "firstPassing g segs (c # cs) =
     (case passesChecks g segs c of
        None \<Rightarrow> None
      | Some True \<Rightarrow> Some (Some c)
      | Some False \<Rightarrow> firstPassing g segs cs)"

definition specPlacementSearch :: "graph \<Rightarrow> nat list \<Rightarrow> point option option" where
  "specPlacementSearch g segs =
     (case calculateCentroid g segs of
        None \<Rightarrow> None
      | Some centroid \<Rightarrow>
          (case calculateGraphCenter g of
             None \<Rightarrow> None
           | Some graphCenter \<Rightarrow>
               firstPassing g segs
                 (map (specCandidate centroid
                         (normalizeVector \<lparr>px = px centroid - px graphCenter,
                                           py = py centroid - py graphCenter\<rparr>))
                      [0..<32])))"

subsection \<open>Concrete graphs\<close>

text \<open>
  The initial triangle with its bottom edge selected (vertices V2 and V3), and the graph that
  the insertion leaves behind.
\<close>

definition triangleSelected :: graph where
  "triangleSelected = newGraph\<lparr>selectedVertices := [1, 2]\<rparr>"

definition triangleInserted :: graph where
  "triangleInserted = newGraph\<lparr>
     vertices := vertices newGraph @ [\<lparr>px = 0, py = 130, visible = True, vid = 4\<rparr>],
     edges := [(0, 1), (1, 2), (2, 0), (3, 1), (3, 2)],
     periphery := [0, 3],
     maxVertexId := 4\<rparr>"

text \<open>
  A rectangle whose only edges are its two diagonals, which cross. Its periphery lists the corners
  clockwise, starting at the top left corner, and the bottom side is selected. The second graph is
  the state after the commit of a fifth vertex below the bottom side, the third the state after
  the rollback.
\<close>

definition crossedGraph :: graph where
  "crossedGraph =
     \<lparr>vertices = [\<lparr>px = -30, py = -40, visible = True, vid = 1\<rparr>,
                  \<lparr>px = 30, py = -40, visible = True, vid = 2\<rparr>,
                  \<lparr>px = 30, py = 40, visible = True, vid = 3\<rparr>,
                  \<lparr>px = -30, py = 40, visible = True, vid = 4\<rparr>],
      edges = [(0, 2), (1, 3)],
      periphery = [0, 3, 2, 1],
      selectedVertices = [3, 2],
      segmentVertices = [],
      hoveredVertex = -1, manualMode = True, showIndices = False, maxVertexId = 4,
      vertexRadius = 15\<rparr>"

definition crossedCommitted :: graph where
  "crossedCommitted = crossedGraph\<lparr>
     segmentVertices := [3, 2],
     maxVertexId := 5,
     vertices := vertices crossedGraph @ [\<lparr>px = 0, py = 120, visible = True, vid = 5\<rparr>],
     edges := [(0, 2), (1, 3), (4, 3), (4, 2)],
     periphery := [0, 4, 1]\<rparr>"

definition crossedRolledBack :: graph where
  "crossedRolledBack =
     crossedGraph\<lparr>segmentVertices := [3, 2], maxVertexId := 5, periphery := [2, 1, 0, 3]\<rparr>"

text \<open>
  A large rectangle with its four sides; the selected segment runs over three corners, so that
  its centroid and every candidate of the search lie well inside.
\<close>

definition largeRectangle :: graph where
  "largeRectangle =
     \<lparr>vertices = [\<lparr>px = -3000, py = -4000, visible = True, vid = 1\<rparr>,
                  \<lparr>px = 3000, py = -4000, visible = True, vid = 2\<rparr>,
                  \<lparr>px = 3000, py = 4000, visible = True, vid = 3\<rparr>,
                  \<lparr>px = -3000, py = 4000, visible = True, vid = 4\<rparr>],
      edges = [(0, 1), (1, 2), (2, 3), (3, 0)],
      periphery = [2, 1, 0, 3],
      selectedVertices = [2, 0],
      segmentVertices = [],
      hoveredVertex = -1, manualMode = True, showIndices = False, maxVertexId = 4,
      vertexRadius = 15\<rparr>"

text \<open>
  Three visible points on one horizontal line, stored in two different orders.
\<close>

definition collinearFarFirst :: graph where
  "collinearFarFirst =
     \<lparr>vertices = [\<lparr>px = 0, py = 0, visible = True, vid = 1\<rparr>,
                  \<lparr>px = 2, py = 0, visible = True, vid = 2\<rparr>,
                  \<lparr>px = 1, py = 0, visible = True, vid = 3\<rparr>],
      edges = [], periphery = [], selectedVertices = [], segmentVertices = [],
      hoveredVertex = -1, manualMode = False, showIndices = False, maxVertexId = 3,
      vertexRadius = 15\<rparr>"

definition collinearNearFirst :: graph where
  "collinearNearFirst =
     \<lparr>vertices = [\<lparr>px = 0, py = 0, visible = True, vid = 1\<rparr>,
                  \<lparr>px = 1, py = 0, visible = True, vid = 3\<rparr>,
                  \<lparr>px = 2, py = 0, visible = True, vid = 2\<rparr>],
      edges = [], periphery = [], selectedVertices = [], segmentVertices = [],
      hoveredVertex = -1, manualMode = False, showIndices = False, maxVertexId = 3,
      vertexRadius = 15\<rparr>"

section \<open>Segment extraction\<close>









section \<open>The state after an insertion attempt\<close>

lemma those_Some_map: "those xs = Some ys \<Longrightarrow> xs = map Some ys"
  by (induction xs arbitrary: ys) (auto split: option.splits)

lemma those_map_Some: "those (map Some ys) = Some ys"
  by (induction ys) auto

lemma indexOf_Some: "indexOf xs v = Some i \<Longrightarrow> i < length xs \<and> xs ! i = v"
  by (induction xs arbitrary: i) (auto split: if_splits)

lemma findNonIntersectingPosition_state:
  "findNonIntersectingPosition g segs = Some (r, g') \<Longrightarrow> g' = g"
  by (auto simp: findNonIntersectingPosition_def Let_def split: option.splits)

lemma ensureClockwiseOrder_periphery:
  "ensureClockwiseOrder g = Some g' \<Longrightarrow>
     g' = g\<lparr>periphery := periphery g'\<rparr> \<and>
     (periphery g' = periphery g \<or> periphery g' = rev (periphery g))"
  by (auto simp: ensureClockwiseOrder_def split: if_splits option.splits)

lemma updatePeriphery_periphery:
  "updatePeriphery g = Some g' \<Longrightarrow> g' = g\<lparr>periphery := periphery g'\<rparr>"
  by (auto simp: updatePeriphery_def Let_def dest!: ensureClockwiseOrder_periphery)

lemma updatePeripheryAfterSegmentReplacement_periphery:
  "updatePeripheryAfterSegmentReplacement g s e v = Some g' \<Longrightarrow> g' = g\<lparr>periphery := periphery g'\<rparr>"
  by (auto simp: updatePeripheryAfterSegmentReplacement_def Let_def
      dest!: ensureClockwiseOrder_periphery)

lemma checkAndFinish_cases:
  assumes "checkAndFinish g = Some (out, g')"
  shows "(\<exists>m. validateGraphIntegrity g = Some (Invalid m) \<and> rollback g = Some g' \<and>
            out = Failure (RolledBack m)) \<or>
         (validateGraphIntegrity g = Some Valid \<and> out = Success (maxVertexId g) 0 \<and>
            g' = g\<lparr>selectedVertices := [], segmentVertices := []\<rparr>)"
  using assms
  by (auto simp: checkAndFinish_def Let_def split: option.splits validation.splits)

lemma commitInsertion_cases:
  assumes "commitInsertion g newPosition p1 p2 = Some (out, g')"
  shows "\<exists>g1. updatePeripheryAfterSegmentReplacement (commitVertex g newPosition) p1 p2
                 (length (vertices g)) = Some g1 \<and>
              checkAndFinish g1 = Some (out, g')"
  using assms by (auto simp: commitInsertion_def Let_def split: option.splits)

lemma placeVertex_cases:
  assumes "placeVertex g p1 p2 = Some (out, g')"
  shows "(findNonIntersectingPosition g (segmentVertices g) = Some (None, g) \<and>
            out = Failure NoValidPlacement \<and> g' = g) \<or>
         (\<exists>newPosition. findNonIntersectingPosition g (segmentVertices g) = Some (Some newPosition, g) \<and>
            ((\<exists>m. validateNewEdges g newPosition (segmentVertices g) = Some (Invalid m) \<and>
                  out = Failure (CannotAddVertex m) \<and> g' = g) \<or>
             (validateNewEdges g newPosition (segmentVertices g) = Some Valid \<and>
                commitInsertion g newPosition p1 p2 = Some (out, g'))))"
  using assms
  by (auto simp: placeVertex_def split: option.splits validation.splits
      dest: findNonIntersectingPosition_state)

lemma processSegmentSelection_cases:
  assumes "processSegmentSelection g = Some (out, g')"
  shows "(length (selectedVertices g) \<noteq> 2 \<and> out = Failure NotTwoSelected \<and> g' = g) \<or>
         (length (selectedVertices g) = 2 \<and> out = Failure NotInPeriphery \<and> g' = g \<and>
            (indexOf (periphery g) (selectedVertices g ! 0) = None \<or>
             indexOf (periphery g) (selectedVertices g ! 1) = None)) \<or>
         (\<exists>p1 p2 segs. length (selectedVertices g) = 2 \<and>
            indexOf (periphery g) (selectedVertices g ! 0) = Some p1 \<and>
            indexOf (periphery g) (selectedVertices g ! 1) = Some p2 \<and>
            getPeripherySegment g p1 p2 = Some (map Some segs) \<and>
            ((length segs < 2 \<and> out = Failure SegmentTooShort \<and> g' = g\<lparr>segmentVertices := segs\<rparr>) \<or>
             (2 \<le> length segs \<and> placeVertex (g\<lparr>segmentVertices := segs\<rparr>) p1 p2 = Some (out, g'))))"
  using assms
  by (auto simp: processSegmentSelection_def Let_def split: option.splits if_splits
      dest!: those_Some_map)

lemma vertexAt_cong: "vertices g1 = vertices g2 \<Longrightarrow> vertexAt g1 = vertexAt g2"
  by (auto simp: vertexAt_def fun_eq_iff)

lemma getConvexHull_cong: "vertices g1 = vertices g2 \<Longrightarrow> getConvexHull g1 = getConvexHull g2"
  by (simp add: getConvexHull_def visibleVertices_def)

lemma peripheryArea_cong:
  "vertices g1 = vertices g2 \<Longrightarrow> periphery g1 = periphery g2 \<Longrightarrow>
   peripheryArea g1 = peripheryArea g2"
  by (simp add: peripheryArea_def vertexAt_cong[of g1 g2] cong: option.case_cong)

lemma ensureClockwiseOrder_cong:
  "vertices g1 = vertices g2 \<Longrightarrow> periphery g1 = periphery g2 \<Longrightarrow>
   map_option periphery (ensureClockwiseOrder g1) = map_option periphery (ensureClockwiseOrder g2)"
  by (auto simp: ensureClockwiseOrder_def peripheryArea_cong[of g1 g2] split: option.splits)

lemma updatePeriphery_cong:
  "vertices g1 = vertices g2 \<Longrightarrow>
   map_option periphery (updatePeriphery g1) = map_option periphery (updatePeriphery g2)"
  unfolding updatePeriphery_def Let_def
  by (rule ensureClockwiseOrder_cong) (simp_all add: getConvexHull_cong[of g1 g2])

lemma existingEdgesLoop_cong:
  "vertices g1 = vertices g2 \<Longrightarrow> existingEdgesLoop g1 e es = existingEdgesLoop g2 e es"
  by (induction es) (auto simp: vertexAt_cong[of g1 g2] split: option.splits bool.splits)

lemma newEdgesLoop_cong:
  "vertices g1 = vertices g2 \<Longrightarrow> edges g1 = edges g2 \<Longrightarrow>
   newEdgesLoop g1 all es = newEdgesLoop g2 all es"
  by (induction es)
    (auto simp: existingEdgesLoop_cong[of g1 g2] split: option.splits validation.splits)

lemma validateNewEdges_cong:
  "vertices g1 = vertices g2 \<Longrightarrow> edges g1 = edges g2 \<Longrightarrow>
   validateNewEdges g1 c segs = validateNewEdges g2 c segs"
  by (simp add: validateNewEdges_def vertexAt_cong[of g1 g2] newEdgesLoop_cong[of g1 g2])

lemma edgeDistanceLoop_cong:
  "vertices g1 = vertices g2 \<Longrightarrow> edgeDistanceLoop g1 c es = edgeDistanceLoop g2 c es"
  by (induction es) (auto simp: vertexAt_cong[of g1 g2] split: option.splits bool.splits)

lemma validateBasicPosition_cong:
  "vertices g1 = vertices g2 \<Longrightarrow> edges g1 = edges g2 \<Longrightarrow>
   validateBasicPosition g1 c = validateBasicPosition g2 c"
  by (simp add: validateBasicPosition_def edgeDistanceLoop_cong[of g1 g2] isOutsideGraph_def
      getConvexHull_cong[of g1 g2] cong: option.case_cong bool.case_cong)

lemma centroidLoop_cong:
  "vertices g1 = vertices g2 \<Longrightarrow> centroidLoop g1 segs acc = centroidLoop g2 segs acc"
  by (induction segs arbitrary: acc) (auto simp: vertexAt_cong[of g1 g2] split: option.splits)

lemma searchLoop_cong:
  assumes "vertices g1 = vertices g2" "edges g1 = edges g2"
  shows "searchLoop g1 segs c d k = searchLoop g2 segs c d k"
proof (induction "32 - k" arbitrary: k)
  case 0
  then show ?case by (simp add: searchLoop.simps)
next
  case (Suc n)
  then have "n = 32 - (k + 1)" "k < 32" by simp_all
  from Suc.hyps(1)[OF this(1)] show ?case
    by (subst (1 2) searchLoop.simps)
      (auto simp: validateBasicPosition_cong[OF assms] validateNewEdges_cong[OF assms] Let_def
        split: option.splits validation.splits)
qed

lemma findNonIntersectingPosition_cong:
  assumes "vertices g1 = vertices g2" "edges g1 = edges g2"
  shows "map_option fst (findNonIntersectingPosition g1 segs) =
         map_option fst (findNonIntersectingPosition g2 segs)"
  using assms
  by (auto simp: findNonIntersectingPosition_def calculateCentroid_def calculateGraphCenter_def
      centroidLoop_cong[of g1 g2] searchLoop_cong[OF assms] Let_def split: option.splits prod.splits)

lemma rollback_commit:
  assumes segs: "0 < length (segmentVertices g)"
    and rb: "rollback ((commitVertex g newPosition)\<lparr>periphery := P\<rparr>) = Some g'"
  shows "vertices g' = vertices g \<and> edges g' = edges g \<and>
         maxVertexId g' = maxVertexId g + 1 \<and>
         selectedVertices g' = selectedVertices g \<and>
         segmentVertices g' = segmentVertices g \<and>
         map_option periphery (updatePeriphery g) = Some (periphery g')"
proof -
  let ?g2 = "(commitVertex g newPosition)\<lparr>periphery := P,
      vertices := butlast (vertices (commitVertex g newPosition)),
      edges := sliceDropLast (edges (commitVertex g newPosition)) (length (segmentVertices g))\<rparr>"
  have up: "updatePeriphery ?g2 = Some g'"
    using rb by (simp add: rollback_def Let_def commitVertex_def)
  have v: "vertices ?g2 = vertices g" by (simp add: commitVertex_def Let_def)
  have e: "edges ?g2 = edges g" using segs
    by (simp add: commitVertex_def Let_def sliceDropLast_def)
  from updatePeriphery_periphery[OF up] have g': "g' = ?g2\<lparr>periphery := periphery g'\<rparr>" .
  have "map_option periphery (updatePeriphery g) = map_option periphery (updatePeriphery ?g2)"
    by (rule updatePeriphery_cong[OF v[symmetric]])
  then have "map_option periphery (updatePeriphery g) = Some (periphery g')"
    by (simp add: up)
  moreover have "vertices g' = vertices g"
    by (subst g') (simp add: commitVertex_def Let_def)
  moreover have "edges g' = edges g" using segs
    by (subst g') (simp add: commitVertex_def Let_def sliceDropLast_def)
  moreover have "maxVertexId g' = maxVertexId g + 1"
    by (subst g') (simp add: commitVertex_def Let_def)
  moreover have "selectedVertices g' = selectedVertices g"
    by (subst g') (simp add: commitVertex_def Let_def)
  moreover have "segmentVertices g' = segmentVertices g"
    by (subst g') (simp add: commitVertex_def Let_def)
  ultimately show ?thesis by simp
qed

lemma commitInsertion_result:
  assumes segs: "0 < length (segmentVertices g)"
    and ci: "commitInsertion g newPosition p1 p2 = Some (out, g')"
  shows "(\<exists>m. out = Failure (RolledBack m) \<and>
            vertices g' = vertices g \<and> edges g' = edges g \<and>
            maxVertexId g' = maxVertexId g + 1 \<and>
            selectedVertices g' = selectedVertices g \<and>
            segmentVertices g' = segmentVertices g \<and>
            map_option periphery (updatePeriphery g) = Some (periphery g')) \<or>
         (out = Success (maxVertexId g + 1) 0 \<and>
            vertices g' = vertices g @
              [\<lparr>px = px newPosition, py = py newPosition, visible = True, vid = maxVertexId g + 1\<rparr>] \<and>
            edges g' = edges g @ map (\<lambda>vIdx. (length (vertices g), vIdx)) (segmentVertices g) \<and>
            maxVertexId g' = maxVertexId g + 1 \<and>
            selectedVertices g' = [] \<and> segmentVertices g' = [])"
proof -
  from commitInsertion_cases[OF ci] obtain g1 where
    up: "updatePeripheryAfterSegmentReplacement (commitVertex g newPosition) p1 p2
           (length (vertices g)) = Some g1"
    and cf: "checkAndFinish g1 = Some (out, g')" by blast
  from updatePeripheryAfterSegmentReplacement_periphery[OF up]
  have g1: "g1 = (commitVertex g newPosition)\<lparr>periphery := periphery g1\<rparr>" .
  from checkAndFinish_cases[OF cf] show ?thesis
  proof
    assume "\<exists>m. validateGraphIntegrity g1 = Some (Invalid m) \<and> rollback g1 = Some g' \<and>
            out = Failure (RolledBack m)"
    then obtain m where rb: "rollback g1 = Some g'" and out: "out = Failure (RolledBack m)"
      by blast
    from rb g1 have "rollback ((commitVertex g newPosition)\<lparr>periphery := periphery g1\<rparr>) = Some g'"
      by simp
    from rollback_commit[OF segs this] out show ?thesis by simp
  next
    assume a: "validateGraphIntegrity g1 = Some Valid \<and> out = Success (maxVertexId g1) 0 \<and>
            g' = g1\<lparr>selectedVertices := [], segmentVertices := []\<rparr>"
    have "maxVertexId g1 = maxVertexId g + 1"
      by (subst g1) (simp add: commitVertex_def Let_def)
    moreover have "vertices g1 = vertices g @
        [\<lparr>px = px newPosition, py = py newPosition, visible = True, vid = maxVertexId g + 1\<rparr>]"
      by (subst g1) (simp add: commitVertex_def Let_def)
    moreover have "edges g1 = edges g @ map (\<lambda>vIdx. (length (vertices g), vIdx)) (segmentVertices g)"
      by (subst g1) (simp add: commitVertex_def Let_def)
    ultimately show ?thesis using a by simp
  qed
qed

lemma processSegmentSelection_result:
  assumes "processSegmentSelection g = Some (out, g')"
  shows "(\<exists>f. out = Failure f \<and> (\<forall>m. f \<noteq> RolledBack m) \<and>
            vertices g' = vertices g \<and> edges g' = edges g \<and> periphery g' = periphery g \<and>
            maxVertexId g' = maxVertexId g \<and> selectedVertices g' = selectedVertices g) \<or>
         (\<exists>m. out = Failure (RolledBack m) \<and>
            vertices g' = vertices g \<and> edges g' = edges g \<and>
            maxVertexId g' = maxVertexId g + 1 \<and>
            selectedVertices g' = selectedVertices g \<and>
            map_option periphery (updatePeriphery g) = Some (periphery g')) \<or>
         (\<exists>(newPosition :: point) segs. out = Success (maxVertexId g + 1) 0 \<and> 2 \<le> length segs \<and>
            vertices g' = vertices g @
              [\<lparr>px = px newPosition, py = py newPosition, visible = True, vid = maxVertexId g + 1\<rparr>] \<and>
            edges g' = edges g @ map (\<lambda>vIdx. (length (vertices g), vIdx)) segs \<and>
            maxVertexId g' = maxVertexId g + 1 \<and>
            selectedVertices g' = [] \<and> segmentVertices g' = [])"
proof -
  from processSegmentSelection_cases[OF assms]
  consider (a) "out = Failure NotTwoSelected" "g' = g"
    | (b) "out = Failure NotInPeriphery" "g' = g"
    | (c) segs where "out = Failure SegmentTooShort" "g' = g\<lparr>segmentVertices := segs\<rparr>"
    | (d) p1 p2 segs where "2 \<le> length segs"
        "placeVertex (g\<lparr>segmentVertices := segs\<rparr>) p1 p2 = Some (out, g')"
    by blast
  then show ?thesis
  proof cases
    case a then show ?thesis by simp
  next
    case b then show ?thesis by simp
  next
    case c then show ?thesis by simp
  next
    case d
    let ?g1 = "g\<lparr>segmentVertices := segs\<rparr>"
    from placeVertex_cases[OF d(2)]
    consider (d1) "out = Failure NoValidPlacement" "g' = ?g1"
      | (d2) m where "out = Failure (CannotAddVertex m)" "g' = ?g1"
      | (d3) newPosition where "commitInsertion ?g1 newPosition p1 p2 = Some (out, g')"
      by blast
    then show ?thesis
    proof cases
      case d1 then show ?thesis by simp
    next
      case d2 then show ?thesis by simp
    next
      case d3
      have pos: "0 < length (segmentVertices ?g1)" using d(1) by auto
      have up: "map_option periphery (updatePeriphery ?g1) = map_option periphery (updatePeriphery g)"
        by (rule updatePeriphery_cong) simp
      from commitInsertion_result[OF pos d3] show ?thesis
      proof
        assume "\<exists>m. out = Failure (RolledBack m) \<and>
            vertices g' = vertices ?g1 \<and> edges g' = edges ?g1 \<and>
            maxVertexId g' = maxVertexId ?g1 + 1 \<and>
            selectedVertices g' = selectedVertices ?g1 \<and>
            segmentVertices g' = segmentVertices ?g1 \<and>
            map_option periphery (updatePeriphery ?g1) = Some (periphery g')"
        then show ?thesis using up by auto
      next
        assume "out = Success (maxVertexId ?g1 + 1) 0 \<and>
            vertices g' = vertices ?g1 @
              [\<lparr>px = px newPosition, py = py newPosition, visible = True, vid = maxVertexId ?g1 + 1\<rparr>] \<and>
            edges g' = edges ?g1 @ map (\<lambda>vIdx. (length (vertices ?g1), vIdx)) (segmentVertices ?g1) \<and>
            maxVertexId g' = maxVertexId ?g1 + 1 \<and>
            selectedVertices g' = [] \<and> segmentVertices g' = []"
        then have fin: "out = Success (maxVertexId g + 1) 0 \<and> 2 \<le> length segs \<and>
            vertices g' = vertices g @
              [\<lparr>px = px newPosition, py = py newPosition, visible = True, vid = maxVertexId g + 1\<rparr>] \<and>
            edges g' = edges g @ map (\<lambda>vIdx. (length (vertices g), vIdx)) segs \<and>
            maxVertexId g' = maxVertexId g + 1 \<and>
            selectedVertices g' = [] \<and> segmentVertices g' = []"
          using d(1) by simp
        show ?thesis
          by (rule disjI2, rule disjI2, rule exI[where x = newPosition],
              rule exI[where x = segs], rule fin)
      qed
    qed
  qed
qed

section \<open>Evaluating the operations on concrete graphs\<close>

text \<open>
  Square roots and angles of the concrete coordinates are decided by squaring and by the bounds
  of the arc tangent.
\<close>

lemma upt_0_2: "[0..<2] = [0, 1]"
  by (simp add: upt_rec)

lemma upt_0_3: "[0..<3] = [0, 1, 2]"
  by (simp add: upt_rec)

lemma upt_1_3: "[1..<3] = [1, 2]"
  by (simp add: upt_rec)

lemma upt_0_4: "[0..<4] = [0, 1, 2, 3]"
  by (simp add: upt_rec)

lemma upt_1_4: "[1..<4] = [1, 2, 3]"
  by (simp add: upt_rec)

lemma atan2_right: "0 < a \<Longrightarrow> atan2 b a = arctan (b / a)"
  by (simp add: atan2_def)

lemma atan2_up: "b < 0 \<Longrightarrow> atan2 b 0 = - pi / 2"
  by (simp add: atan2_def)

lemma sqrt_less_iff_square: "0 \<le> c \<Longrightarrow> sqrt a < c \<longleftrightarrow> a < c * c"
proof -
  assume c: "0 \<le> c"
  have "sqrt a < sqrt (c * c) \<longleftrightarrow> a < c * c" by (rule real_sqrt_less_iff)
  then show ?thesis using c by simp
qed

lemma distance_less_iff:
  "0 \<le> c \<Longrightarrow> distance p q < c \<longleftrightarrow> (px p - px q)\<^sup>2 + (py p - py q)\<^sup>2 < c * c"
  by (simp add: distance_def sqrt_less_iff_square)

lemma distance_tolerance:
  "distance p q * 1000 < 1 \<longleftrightarrow> ((px p - px q)\<^sup>2 + (py p - py q)\<^sup>2) * 1000000 < 1"
proof -
  have "distance p q * 1000 < 1 \<longleftrightarrow> distance p q < 1 / 1000" by (simp add: field_simps)
  also have "\<dots> \<longleftrightarrow> (px p - px q)\<^sup>2 + (py p - py q)\<^sup>2 < (1 / 1000) * (1 / 1000)"
    by (rule distance_less_iff) simp
  also have "\<dots> \<longleftrightarrow> ((px p - px q)\<^sup>2 + (py p - py q)\<^sup>2) * 1000000 < 1"
    by (simp add: field_simps)
  finally show ?thesis .
qed

lemma sqrt_1600: "sqrt 1600 = 40"
  by (rule real_sqrt_unique) simp_all

lemma sqrt_2500: "sqrt 2500 = 50"
  by (rule real_sqrt_unique) simp_all

lemma sqrt_10000: "sqrt 10000 = 100"
  by (rule real_sqrt_unique) simp_all

lemma sqrt_25000000: "sqrt 25000000 = 5000"
  by (rule real_sqrt_unique) simp_all

lemma candidateAt_0: "candidateAt c d 0 = \<lparr>px = px c + px d * 80, py = py c + py d * 80\<rparr>"
  by (simp add: candidateAt_def)

lemma periphery_commitVertex: "periphery (commitVertex g newPosition) = periphery g"
  by (simp add: commitVertex_def Let_def)

lemma processSegmentSelection_eval:
  assumes "length (selectedVertices g) = 2"
    and "indexOf (periphery g) (selectedVertices g ! 0) = Some p1"
    and "indexOf (periphery g) (selectedVertices g ! 1) = Some p2"
    and "getPeripherySegment g p1 p2 = Some (map Some segs)"
    and "2 \<le> length segs"
  shows "processSegmentSelection g = placeVertex (g\<lparr>segmentVertices := segs\<rparr>) p1 p2"
  using assms by (simp add: processSegmentSelection_def those_map_Some Let_def)

lemma placeVertex_eval:
  assumes "findNonIntersectingPosition g (segmentVertices g) = Some (Some newPosition, g)"
    and "validateNewEdges g newPosition (segmentVertices g) = Some Valid"
  shows "placeVertex g p1 p2 = commitInsertion g newPosition p1 p2"
  using assms by (simp add: placeVertex_def)

lemma placeVertex_none:
  assumes "findNonIntersectingPosition g (segmentVertices g) = Some (None, g)"
  shows "placeVertex g p1 p2 = Some (Failure NoValidPlacement, g)"
  using assms by (simp add: placeVertex_def)

lemma commitInsertion_eval:
  assumes "updatePeripheryAfterSegmentReplacement (commitVertex g newPosition) p1 p2
             (length (vertices g)) = Some g1"
  shows "commitInsertion g newPosition p1 p2 = checkAndFinish g1"
  using assms by (simp add: commitInsertion_def)

lemma findNonIntersectingPosition_transfer:
  assumes "vertices g1 = vertices g2" "edges g1 = edges g2"
    and "findNonIntersectingPosition g2 segs = Some (r, g2')"
  shows "findNonIntersectingPosition g1 segs = Some (r, g1)"
proof -
  from findNonIntersectingPosition_cong[OF assms(1,2), of segs] assms(3)
  have "map_option fst (findNonIntersectingPosition g1 segs) = Some r" by simp
  then obtain g1' where "findNonIntersectingPosition g1 segs = Some (r, g1')" by auto
  with findNonIntersectingPosition_state[OF this] show ?thesis by simp
qed

subsection \<open>The initial triangle\<close>

lemma vertices_newGraph:
  "vertices newGraph =
     [\<lparr>px = 0, py = -100, visible = True, vid = 1\<rparr>,
      \<lparr>px = -87, py = 50, visible = True, vid = 2\<rparr>,
      \<lparr>px = 87, py = 50, visible = True, vid = 3\<rparr>]"
  by (simp add: newGraph_def initializeTriangle_def)

lemma edges_newGraph: "edges newGraph = [(0, 1), (1, 2), (2, 0)]"
  by (simp add: newGraph_def initializeTriangle_def)

lemma periphery_newGraph: "periphery newGraph = [0, 1, 2]"
  by (simp add: newGraph_def initializeTriangle_def)

lemma maxVertexId_newGraph: "maxVertexId newGraph = 3"
  by (simp add: newGraph_def initializeTriangle_def)

lemma visibleVertices_newGraph:
  "visibleVertices newGraph =
     [(0, \<lparr>px = 0, py = -100, visible = True, vid = 1\<rparr>),
      (1, \<lparr>px = -87, py = 50, visible = True, vid = 2\<rparr>),
      (2, \<lparr>px = 87, py = 50, visible = True, vid = 3\<rparr>)]"
  by (simp add: visibleVertices_def vertices_newGraph enumerate_eq_zip upt_0_3)

lemma hullStart_newGraph: "hullStart (visibleVertices newGraph) = 1"
  by (simp add: visibleVertices_newGraph hullStart_def upt_1_3)

lemma sortedPoints_newGraph:
  "sortedPoints (visibleVertices newGraph) 1 =
     [(0, \<lparr>px = 0, py = -100, visible = True, vid = 1\<rparr>),
      (2, \<lparr>px = 87, py = 50, visible = True, vid = 3\<rparr>)]"
proof -
  have "arctan (- 150 / 87) \<le> arctan (0 / 174)"
    by (simp add: arctan_le_zero_iff)
  then show ?thesis
    by (simp add: sortedPoints_def visibleVertices_newGraph enumerate_eq_zip upt_0_3
        polarAngle_def atan2_right)
qed

lemma getConvexHull_newGraph:
  "getConvexHull newGraph =
     [(1, \<lparr>px = -87, py = 50, visible = True, vid = 2\<rparr>),
      (0, \<lparr>px = 0, py = -100, visible = True, vid = 1\<rparr>),
      (2, \<lparr>px = 87, py = 50, visible = True, vid = 3\<rparr>)]"
  unfolding getConvexHull_def Let_def hullStart_newGraph sortedPoints_newGraph
  by (simp add: visibleVertices_newGraph hullPop.simps ccw_def ipos_def pos_def boolToNumber_def)

lemma expanded_below: "\<not> 80 < 2000 / sqrt 10069"
proof -
  have "100 < sqrt 10069" by (rule real_less_rsqrt) simp
  then have "2000 / sqrt 10069 < 80" by (simp add: field_simps)
  then show ?thesis by simp
qed

lemma isOutsideGraph_newGraph: "isOutsideGraph newGraph 0 130 40"
  by (simp add: isOutsideGraph_def getConvexHull_newGraph ipos_def pos_def expandPolygon_def
      calculatePolygonCenter_def sqrt_10000 pointInPolygon_def upt_0_3 Let_def expanded_below)

lemma validateBasicPosition_newGraph:
  "validateBasicPosition newGraph \<lparr>px = 0, py = 130\<rparr> = Some Valid"
  by (simp add: validateBasicPosition_def vertices_newGraph edges_newGraph distance_less_iff
      pos_def vertexAt_def pointToLineDistance_def Let_def isOutsideGraph_newGraph power2_eq_square)

lemma validateNewEdges_newGraph:
  "validateNewEdges newGraph \<lparr>px = 0, py = 130\<rparr> [1, 2] = Some Valid"
  by (simp add: validateNewEdges_def enumerate_eq_zip upt_0_2 vertexAt_def vertices_newGraph
      edges_newGraph pos_def edgesShareVertex_def distance_tolerance
      segmentsIntersectJS_def segmentsIntersect_def ccw_def power2_eq_square)

lemma calculateCentroid_newGraph:
  "calculateCentroid newGraph [1, 2] = Some \<lparr>px = 0, py = 50\<rparr>"
  by (simp add: calculateCentroid_def vertexAt_def vertices_newGraph)

lemma calculateGraphCenter_newGraph:
  "calculateGraphCenter newGraph = Some \<lparr>px = 0, py = 0\<rparr>"
  by (simp add: calculateGraphCenter_def vertices_newGraph)

lemma findNonIntersectingPosition_newGraph:
  "findNonIntersectingPosition newGraph [1, 2] = Some (Some \<lparr>px = 0, py = 130\<rparr>, newGraph)"
  by (simp add: findNonIntersectingPosition_def calculateCentroid_newGraph
      calculateGraphCenter_newGraph normalizeVector_def sqrt_2500 searchLoop.simps[of _ _ _ _ 0]
      candidateAt_0 validateBasicPosition_newGraph validateNewEdges_newGraph
      del: One_nat_def)

lemma updatePeripheryAfterSegmentReplacement_triangle:
  "updatePeripheryAfterSegmentReplacement
     (commitVertex (triangleSelected\<lparr>segmentVertices := [1, 2]\<rparr>) \<lparr>px = 0, py = 130\<rparr>) 1 2 3
   = Some (triangleInserted\<lparr>selectedVertices := [1, 2], segmentVertices := [1, 2]\<rparr>)"
  by (simp add: updatePeripheryAfterSegmentReplacement_def ensureClockwiseOrder_def Let_def
      commitVertex_def triangleSelected_def triangleInserted_def newGraph_def
      initializeTriangle_def)

lemma validateGraphIntegrity_triangle:
  "validateGraphIntegrity (triangleInserted\<lparr>selectedVertices := [1, 2], segmentVertices := [1, 2]\<rparr>)
     = Some Valid"
  by (simp add: validateGraphIntegrity_def triangleInserted_def vertexAt_def vertices_newGraph
      pos_def segmentsIntersect_def ccw_def)

lemma processSegmentSelection_triangle:
  "processSegmentSelection triangleSelected = Some (Success 4 0, triangleInserted)"
proof -
  let ?g1 = "triangleSelected\<lparr>segmentVertices := [1, 2]\<rparr>"
  have search: "findNonIntersectingPosition ?g1 (segmentVertices ?g1) =
      Some (Some \<lparr>px = 0, py = 130\<rparr>, ?g1)"
    using findNonIntersectingPosition_transfer[OF _ _ findNonIntersectingPosition_newGraph, of ?g1]
    by (simp add: triangleSelected_def)
  have final: "validateNewEdges ?g1 \<lparr>px = 0, py = 130\<rparr> (segmentVertices ?g1) = Some Valid"
    using validateNewEdges_cong[of ?g1 newGraph] validateNewEdges_newGraph
    by (simp add: triangleSelected_def)
  have len: "length (vertices ?g1) = 3" by (simp add: triangleSelected_def vertices_newGraph)
  have up: "updatePeripheryAfterSegmentReplacement (commitVertex ?g1 \<lparr>px = 0, py = 130\<rparr>) 1 2
      (length (vertices ?g1)) =
      Some (triangleInserted\<lparr>selectedVertices := [1, 2], segmentVertices := [1, 2]\<rparr>)"
    unfolding len by (rule updatePeripheryAfterSegmentReplacement_triangle)
  have a1: "length (selectedVertices triangleSelected) = 2" by (simp add: triangleSelected_def)
  have a2: "indexOf (periphery triangleSelected) (selectedVertices triangleSelected ! 0) = Some 1"
    by (simp add: triangleSelected_def periphery_newGraph)
  have a3: "indexOf (periphery triangleSelected) (selectedVertices triangleSelected ! 1) = Some 2"
    by (simp add: triangleSelected_def periphery_newGraph)
  have a4: "getPeripherySegment triangleSelected 1 2 = Some (map Some [1, 2])"
    apply (simp add: getPeripherySegment_def)
    apply (subst segmentLoop.simps)
    apply (simp add: triangleSelected_def periphery_newGraph peripheryAtJS_def peripheryAt_def
        nextPosition_def)
    apply (subst segmentLoop.simps)
    apply (simp add: peripheryAtJS_def peripheryAt_def periphery_newGraph)
    done
  have "processSegmentSelection triangleSelected = placeVertex ?g1 1 2"
    by (rule processSegmentSelection_eval[OF a1 a2 a3 a4]) simp
  also have "\<dots> = commitInsertion ?g1 \<lparr>px = 0, py = 130\<rparr> 1 2"
    by (rule placeVertex_eval[OF search final])
  also have "\<dots> = checkAndFinish (triangleInserted\<lparr>selectedVertices := [1, 2], segmentVertices := [1, 2]\<rparr>)"
    by (rule commitInsertion_eval[OF up])
  also have "\<dots> = Some (Success 4 0, triangleInserted)"
    by (simp add: checkAndFinish_def validateGraphIntegrity_triangle del: One_nat_def)
      (simp add: triangleInserted_def newGraph_def initializeTriangle_def)
  finally show ?thesis .
qed

lemma addRandomSegment_newGraph:
  "addRandomSegment newGraph 0 (2 / 5) = Some (Success 4 0, triangleInserted)"
proof -
  have "newGraph\<lparr>selectedVertices := [periphery newGraph ! 1, periphery newGraph ! 2]\<rparr>
      = triangleSelected"
    by (simp add: triangleSelected_def periphery_newGraph)
  moreover have "triangleInserted\<lparr>selectedVertices := [], segmentVertices := []\<rparr> = triangleInserted"
    by (simp add: triangleInserted_def newGraph_def initializeTriangle_def)
  ultimately show ?thesis
    by (simp add: addRandomSegment_def periphery_newGraph Let_def processSegmentSelection_triangle
        del: One_nat_def)
qed


subsection \<open>The rectangle with crossing diagonals\<close>

lemma vertices_crossed:
  "vertices crossedGraph =
     [\<lparr>px = -30, py = -40, visible = True, vid = 1\<rparr>,
      \<lparr>px = 30, py = -40, visible = True, vid = 2\<rparr>,
      \<lparr>px = 30, py = 40, visible = True, vid = 3\<rparr>,
      \<lparr>px = -30, py = 40, visible = True, vid = 4\<rparr>]"
  by (simp add: crossedGraph_def)

lemma periphery_crossed: "periphery crossedGraph = [0, 3, 2, 1]"
  by (simp add: crossedGraph_def)

lemma edges_crossed: "edges crossedGraph = [(0, 2), (1, 3)]"
  by (simp add: crossedGraph_def)

lemma visibleVertices_crossed:
  "visibleVertices crossedGraph =
     [(0, \<lparr>px = -30, py = -40, visible = True, vid = 1\<rparr>),
      (1, \<lparr>px = 30, py = -40, visible = True, vid = 2\<rparr>),
      (2, \<lparr>px = 30, py = 40, visible = True, vid = 3\<rparr>),
      (3, \<lparr>px = -30, py = 40, visible = True, vid = 4\<rparr>)]"
  by (simp add: visibleVertices_def crossedGraph_def enumerate_eq_zip upt_0_4)

lemma hullStart_crossed: "hullStart (visibleVertices crossedGraph) = 3"
  by (simp add: visibleVertices_crossed hullStart_def upt_1_4)

lemma sortedPoints_crossed:
  "sortedPoints (visibleVertices crossedGraph) 3 =
     [(0, \<lparr>px = -30, py = -40, visible = True, vid = 1\<rparr>),
      (1, \<lparr>px = 30, py = -40, visible = True, vid = 2\<rparr>),
      (2, \<lparr>px = 30, py = 40, visible = True, vid = 3\<rparr>)]"
proof -
  have "- pi / 2 \<le> arctan (- 80 / 60)"
    using arctan_lbound[of "- 80 / 60"] by simp
  moreover have "arctan (- 80 / 60) \<le> arctan (0 / 60)"
    by (simp add: arctan_le_zero_iff)
  ultimately show ?thesis
    by (simp add: sortedPoints_def visibleVertices_crossed enumerate_eq_zip upt_0_4
        polarAngle_def atan2_right atan2_up)
qed

lemma getConvexHull_crossed:
  "getConvexHull crossedGraph =
     [(3, \<lparr>px = -30, py = 40, visible = True, vid = 4\<rparr>),
      (0, \<lparr>px = -30, py = -40, visible = True, vid = 1\<rparr>),
      (1, \<lparr>px = 30, py = -40, visible = True, vid = 2\<rparr>),
      (2, \<lparr>px = 30, py = 40, visible = True, vid = 3\<rparr>)]"
  unfolding getConvexHull_def Let_def hullStart_crossed sortedPoints_crossed
  by (simp add: visibleVertices_crossed hullPop.simps ccw_def ipos_def pos_def boolToNumber_def)

lemma isOutsideGraph_crossed: "isOutsideGraph crossedGraph 0 120 40"
  by (simp add: isOutsideGraph_def getConvexHull_crossed ipos_def pos_def expandPolygon_def
      calculatePolygonCenter_def sqrt_2500 pointInPolygon_def upt_0_4 Let_def)

lemma validateBasicPosition_crossed:
  "validateBasicPosition crossedGraph \<lparr>px = 0, py = 120\<rparr> = Some Valid"
  by (simp add: validateBasicPosition_def vertices_crossed edges_crossed distance_less_iff
      pos_def vertexAt_def pointToLineDistance_def Let_def isOutsideGraph_crossed power2_eq_square)

lemma validateNewEdges_crossed:
  "validateNewEdges crossedGraph \<lparr>px = 0, py = 120\<rparr> [3, 2] = Some Valid"
  by (simp add: validateNewEdges_def enumerate_eq_zip upt_0_2 vertexAt_def vertices_crossed
      edges_crossed pos_def edgesShareVertex_def distance_tolerance
      segmentsIntersectJS_def segmentsIntersect_def ccw_def power2_eq_square)

lemma calculateCentroid_crossed:
  "calculateCentroid crossedGraph [3, 2] = Some \<lparr>px = 0, py = 40\<rparr>"
  by (simp add: calculateCentroid_def vertexAt_def vertices_crossed)

lemma calculateGraphCenter_crossed:
  "calculateGraphCenter crossedGraph = Some \<lparr>px = 0, py = 0\<rparr>"
  by (simp add: calculateGraphCenter_def vertices_crossed)

lemma findNonIntersectingPosition_crossed:
  "findNonIntersectingPosition crossedGraph [3, 2] = Some (Some \<lparr>px = 0, py = 120\<rparr>, crossedGraph)"
  by (simp add: findNonIntersectingPosition_def calculateCentroid_crossed
      calculateGraphCenter_crossed normalizeVector_def sqrt_1600 searchLoop.simps[of _ _ _ _ 0]
      candidateAt_0 validateBasicPosition_crossed validateNewEdges_crossed)

lemma getPeripherySegment_crossed:
  "getPeripherySegment crossedGraph 1 2 = Some [Some 3, Some 2]"
  apply (simp add: getPeripherySegment_def)
  apply (subst segmentLoop.simps)
  apply (simp add: crossedGraph_def peripheryAtJS_def peripheryAt_def nextPosition_def)
  apply (subst segmentLoop.simps)
  apply (simp add: peripheryAtJS_def peripheryAt_def)
  done

lemma updatePeriphery_crossed:
  assumes "vertices g = vertices crossedGraph"
  shows "updatePeriphery g = Some (g\<lparr>periphery := [2, 1, 0, 3]\<rparr>)"
proof -
  have hl: "getConvexHull g = getConvexHull crossedGraph"
    by (rule getConvexHull_cong[OF assms])
  have "peripheryArea (g\<lparr>periphery := [3, 0, 1, 2]\<rparr>) = Some (- 9600)"
    by (simp add: peripheryArea_def vertexAt_def assms vertices_crossed upt_0_4)
  then show ?thesis
    by (simp add: updatePeriphery_def hl getConvexHull_crossed ensureClockwiseOrder_def)
qed

lemma updatePeripheryAfterSegmentReplacement_crossed:
  "updatePeripheryAfterSegmentReplacement
     (commitVertex (crossedGraph\<lparr>segmentVertices := [3, 2]\<rparr>) \<lparr>px = 0, py = 120\<rparr>) 1 2 4
   = Some crossedCommitted"
proof -
  have "peripheryArea crossedCommitted = Some 9600"
    by (simp add: peripheryArea_def vertexAt_def crossedCommitted_def vertices_crossed upt_0_3)
  moreover have "(commitVertex (crossedGraph\<lparr>segmentVertices := [3, 2]\<rparr>) \<lparr>px = 0, py = 120\<rparr>)
      \<lparr>periphery := [0, 4, 1]\<rparr> = crossedCommitted"
    by (simp add: commitVertex_def crossedCommitted_def crossedGraph_def)
  ultimately show ?thesis
    by (simp add: updatePeripheryAfterSegmentReplacement_def ensureClockwiseOrder_def
        Let_def periphery_commitVertex periphery_crossed)
qed

lemma validateGraphIntegrity_crossed:
  "validateGraphIntegrity crossedCommitted = Some (Invalid (CrossingDetected 1 3 2 4))"
  by (simp add: validateGraphIntegrity_def crossedCommitted_def vertexAt_def vertices_crossed
      pos_def segmentsIntersect_def ccw_def)

lemma rollback_crossed:
  "rollback crossedCommitted =
     Some (crossedGraph\<lparr>segmentVertices := [3, 2], maxVertexId := 5, periphery := [2, 1, 0, 3]\<rparr>)"
proof -
  let ?g = "crossedCommitted\<lparr>vertices := butlast (vertices crossedCommitted),
      edges := sliceDropLast (edges crossedCommitted) (length (segmentVertices crossedCommitted))\<rparr>"
  have v: "vertices ?g = vertices crossedGraph" by (simp add: crossedCommitted_def)
  have "rollback crossedCommitted = updatePeriphery ?g"
    by (simp add: rollback_def Let_def)
  also have "\<dots> = Some (?g\<lparr>periphery := [2, 1, 0, 3]\<rparr>)"
    by (rule updatePeriphery_crossed[OF v])
  also have "?g\<lparr>periphery := [2, 1, 0, 3]\<rparr> =
      crossedGraph\<lparr>segmentVertices := [3, 2], maxVertexId := 5, periphery := [2, 1, 0, 3]\<rparr>"
    by (simp add: crossedCommitted_def crossedGraph_def sliceDropLast_def)
  finally show ?thesis .
qed

lemma processSegmentSelection_crossed:
  "processSegmentSelection crossedGraph =
     Some (Failure (RolledBack (CrossingDetected 1 3 2 4)),
           crossedGraph\<lparr>segmentVertices := [3, 2], maxVertexId := 5, periphery := [2, 1, 0, 3]\<rparr>)"
proof -
  let ?g1 = "crossedGraph\<lparr>segmentVertices := [3, 2]\<rparr>"
  have search: "findNonIntersectingPosition ?g1 (segmentVertices ?g1) =
      Some (Some \<lparr>px = 0, py = 120\<rparr>, ?g1)"
    using findNonIntersectingPosition_transfer[OF _ _ findNonIntersectingPosition_crossed, of ?g1]
    by simp
  have final: "validateNewEdges ?g1 \<lparr>px = 0, py = 120\<rparr> (segmentVertices ?g1) = Some Valid"
    using validateNewEdges_cong[of ?g1 crossedGraph] validateNewEdges_crossed by simp
  have len: "length (vertices ?g1) = 4" by (simp add: crossedGraph_def)
  have up: "updatePeripheryAfterSegmentReplacement (commitVertex ?g1 \<lparr>px = 0, py = 120\<rparr>) 1 2
      (length (vertices ?g1)) = Some crossedCommitted"
    unfolding len by (rule updatePeripheryAfterSegmentReplacement_crossed)
  have a1: "length (selectedVertices crossedGraph) = 2" by (simp add: crossedGraph_def)
  have a2: "indexOf (periphery crossedGraph) (selectedVertices crossedGraph ! 0) = Some 1"
    by (simp add: crossedGraph_def)
  have a3: "indexOf (periphery crossedGraph) (selectedVertices crossedGraph ! 1) = Some 2"
    by (simp add: crossedGraph_def)
  have a4: "getPeripherySegment crossedGraph 1 2 = Some (map Some [3, 2])"
    using getPeripherySegment_crossed by simp
  have "processSegmentSelection crossedGraph = placeVertex ?g1 1 2"
    by (rule processSegmentSelection_eval[OF a1 a2 a3 a4]) simp
  also have "\<dots> = commitInsertion ?g1 \<lparr>px = 0, py = 120\<rparr> 1 2"
    by (rule placeVertex_eval[OF search final])
  also have "\<dots> = checkAndFinish crossedCommitted"
    by (rule commitInsertion_eval[OF up])
  also have "\<dots> = Some (Failure (RolledBack (CrossingDetected 1 3 2 4)),
           crossedGraph\<lparr>segmentVertices := [3, 2], maxVertexId := 5, periphery := [2, 1, 0, 3]\<rparr>)"
    by (simp add: checkAndFinish_def validateGraphIntegrity_crossed rollback_crossed)
  finally show ?thesis .
qed

lemma processSegmentSelection_crossed_rolledBack:
  "processSegmentSelection crossedGraph =
     Some (Failure (RolledBack (CrossingDetected 1 3 2 4)), crossedRolledBack)"
  unfolding crossedRolledBack_def by (rule processSegmentSelection_crossed)

subsection \<open>The large rectangle\<close>

text \<open>
  Every candidate lies within 700 units of the segment centroid, because the rotated direction
  is a unit vector; all of them are inside the expanded hull, so all 32 attempts fail.
\<close>

lemma vertices_largeRectangle:
  "vertices largeRectangle =
     [\<lparr>px = -3000, py = -4000, visible = True, vid = 1\<rparr>,
      \<lparr>px = 3000, py = -4000, visible = True, vid = 2\<rparr>,
      \<lparr>px = 3000, py = 4000, visible = True, vid = 3\<rparr>,
      \<lparr>px = -3000, py = 4000, visible = True, vid = 4\<rparr>]"
  by (simp add: largeRectangle_def)

lemma visibleVertices_largeRectangle:
  "visibleVertices largeRectangle =
     [(0, \<lparr>px = -3000, py = -4000, visible = True, vid = 1\<rparr>),
      (1, \<lparr>px = 3000, py = -4000, visible = True, vid = 2\<rparr>),
      (2, \<lparr>px = 3000, py = 4000, visible = True, vid = 3\<rparr>),
      (3, \<lparr>px = -3000, py = 4000, visible = True, vid = 4\<rparr>)]"
  by (simp add: visibleVertices_def largeRectangle_def enumerate_eq_zip upt_0_4)

lemma hullStart_largeRectangle: "hullStart (visibleVertices largeRectangle) = 3"
  by (simp add: visibleVertices_largeRectangle hullStart_def upt_1_4)

lemma sortedPoints_largeRectangle:
  "sortedPoints (visibleVertices largeRectangle) 3 =
     [(0, \<lparr>px = -3000, py = -4000, visible = True, vid = 1\<rparr>),
      (1, \<lparr>px = 3000, py = -4000, visible = True, vid = 2\<rparr>),
      (2, \<lparr>px = 3000, py = 4000, visible = True, vid = 3\<rparr>)]"
proof -
  have "- pi / 2 \<le> arctan (- 8000 / 6000)"
    using arctan_lbound[of "- 8000 / 6000"] by simp
  moreover have "arctan (- 8000 / 6000) \<le> arctan (0 / 6000)"
    by (simp add: arctan_le_zero_iff)
  ultimately show ?thesis
    by (simp add: sortedPoints_def visibleVertices_largeRectangle enumerate_eq_zip upt_0_4
        polarAngle_def atan2_right atan2_up)
qed

lemma getConvexHull_largeRectangle:
  "getConvexHull largeRectangle =
     [(3, \<lparr>px = -3000, py = 4000, visible = True, vid = 4\<rparr>),
      (0, \<lparr>px = -3000, py = -4000, visible = True, vid = 1\<rparr>),
      (1, \<lparr>px = 3000, py = -4000, visible = True, vid = 2\<rparr>),
      (2, \<lparr>px = 3000, py = 4000, visible = True, vid = 3\<rparr>)]"
  unfolding getConvexHull_def Let_def hullStart_largeRectangle sortedPoints_largeRectangle
  by (simp add: visibleVertices_largeRectangle hullPop.simps ccw_def ipos_def pos_def
      boolToNumber_def)

lemma inside_largeRectangle:
  assumes "\<bar>a\<bar> < 3000" "\<bar>b\<bar> < 4000"
  shows "\<not> isOutsideGraph largeRectangle a b 40"
proof -
  from assms have "- 3000 < a" "a < 3000" "- 4000 < b" "b < 4000" by (simp_all add: abs_less_iff)
  then have "\<not> a < - 3024" "a < 3024" "b < 4032" "\<not> b < - 4032" by simp_all
  then show ?thesis
    by (simp add: isOutsideGraph_def getConvexHull_largeRectangle ipos_def pos_def
        expandPolygon_def calculatePolygonCenter_def sqrt_25000000 pointInPolygon_def upt_0_4
        Let_def)
qed

lemma unit_rotation:
  fixes a b :: real
  assumes "a * a + b * b = 1"
  shows "\<bar>a * cos t - b * sin t\<bar> \<le> 1" and "\<bar>a * sin t + b * cos t\<bar> \<le> 1"
proof -
  have "(a * c - b * s)\<^sup>2 + (a * s + b * c)\<^sup>2 = (a * a + b * b) * (c * c + s * s)"
    for c s :: real
    by (simp add: power2_eq_square algebra_simps)
  from this[of "cos t" "sin t"]
  have s: "(a * cos t - b * sin t)\<^sup>2 + (a * sin t + b * cos t)\<^sup>2 = 1"
    using assms by (simp add: sin_cos_squared_add3)
  have "(a * cos t - b * sin t)\<^sup>2 \<le> 1"
    using s zero_le_power2[of "a * sin t + b * cos t"] by linarith
  then show "\<bar>a * cos t - b * sin t\<bar> \<le> 1" by (simp add: abs_square_le_1)
  have "(a * sin t + b * cos t)\<^sup>2 \<le> 1"
    using s zero_le_power2[of "a * cos t - b * sin t"] by linarith
  then show "\<bar>a * sin t + b * cos t\<bar> \<le> 1" by (simp add: abs_square_le_1)
qed

lemma normalizeVector_unit:
  "px (normalizeVector v) * px (normalizeVector v) + py (normalizeVector v) * py (normalizeVector v) = 1"
proof (cases "sqrt (px v * px v + py v * py v) = 0")
  case True
  then show ?thesis by (simp add: normalizeVector_def)
next
  case False
  let ?s = "px v * px v + py v * py v"
  have nn: "0 \<le> ?s" by simp
  have sq: "sqrt ?s * sqrt ?s = ?s" using nn by simp
  have ne: "?s \<noteq> 0" using False by auto
  have n: "px (normalizeVector v) = px v / sqrt ?s" "py (normalizeVector v) = py v / sqrt ?s"
    using False by (simp_all add: normalizeVector_def Let_def)
  have "px v / sqrt ?s * (px v / sqrt ?s) + py v / sqrt ?s * (py v / sqrt ?s)
      = px v * px v / (sqrt ?s * sqrt ?s) + py v * py v / (sqrt ?s * sqrt ?s)"
    by (simp only: times_divide_times_eq)
  also have "\<dots> = ?s / (sqrt ?s * sqrt ?s)"
    by (simp only: add_divide_distrib)
  also have "\<dots> = 1" unfolding sq using ne by simp
  finally show ?thesis unfolding n .
qed

lemma candidateAt_near:
  assumes "px d * px d + py d * py d = 1" "k < 32"
  shows "\<bar>px (candidateAt c d k) - px c\<bar> \<le> 700" and "\<bar>py (candidateAt c d k) - py c\<bar> \<le> 700"
proof -
  let ?t = "real (k mod 8) * (pi / 4)"
  let ?r = "80 + real k * 20"
  have r: "0 \<le> ?r" "?r \<le> 700" using assms(2) by simp_all
  have "\<bar>(px d * cos ?t - py d * sin ?t) * ?r\<bar> \<le> 1 * ?r"
    unfolding abs_mult using unit_rotation(1)[OF assms(1), of ?t] r(1)
    by (intro mult_mono) simp_all
  then show "\<bar>px (candidateAt c d k) - px c\<bar> \<le> 700"
    using r(2) by (simp add: candidateAt_def Let_def)
  have "\<bar>(px d * sin ?t + py d * cos ?t) * ?r\<bar> \<le> 1 * ?r"
    unfolding abs_mult using unit_rotation(2)[OF assms(1), of ?t] r(1)
    by (intro mult_mono) simp_all
  then show "\<bar>py (candidateAt c d k) - py c\<bar> \<le> 700"
    using r(2) by (simp add: candidateAt_def Let_def)
qed

lemma edgeDistanceLoop_defined:
  "list_all (\<lambda>e. fst e < length (vertices g) \<and> snd e < length (vertices g)) es \<Longrightarrow>
   \<exists>b. edgeDistanceLoop g c es = Some b"
  by (induction es) (auto simp: vertexAt_def)

lemma validateBasicPosition_inside:
  assumes "list_all (\<lambda>e. fst e < length (vertices g) \<and> snd e < length (vertices g)) (edges g)"
    and "\<not> isOutsideGraph g (px c) (py c) 40"
  shows "\<exists>m. validateBasicPosition g c = Some (Invalid m)"
proof -
  from edgeDistanceLoop_defined[OF assms(1), of c]
  obtain b where "edgeDistanceLoop g c (edges g) = Some b" by blast
  then show ?thesis using assms(2)
    by (simp add: validateBasicPosition_def split: option.splits bool.splits)
qed

lemma searchLoop_all_invalid:
  assumes "\<And>k. k < 32 \<Longrightarrow> \<exists>m. validateBasicPosition g (candidateAt c d k) = Some (Invalid m)"
  shows "searchLoop g segs c d k0 = Some None"
proof (induction "32 - k0" arbitrary: k0)
  case 0
  then show ?case by (simp add: searchLoop.simps)
next
  case (Suc n)
  then have n: "n = 32 - (k0 + 1)" and k: "k0 < 32" by simp_all
  from assms[OF k] obtain m where "validateBasicPosition g (candidateAt c d k0) = Some (Invalid m)"
    by blast
  with Suc.hyps(1)[OF n] k show ?case
    by (subst searchLoop.simps) (simp add: Let_def)
qed

lemma calculateCentroid_largeRectangle:
  "calculateCentroid largeRectangle [2, 1, 0] = Some \<lparr>px = 1000, py = - 4000 / 3\<rparr>"
  by (simp add: calculateCentroid_def vertexAt_def vertices_largeRectangle)

lemma calculateGraphCenter_largeRectangle:
  "calculateGraphCenter largeRectangle = Some \<lparr>px = 0, py = 0\<rparr>"
  by (simp add: calculateGraphCenter_def vertices_largeRectangle)

lemma findNonIntersectingPosition_largeRectangle:
  "findNonIntersectingPosition largeRectangle [2, 1, 0] = Some (None, largeRectangle)"
proof -
  let ?c = "\<lparr>px = 1000, py = - 4000 / 3\<rparr> :: point"
  let ?d = "normalizeVector \<lparr>px = px ?c - px \<lparr>px = 0, py = 0 :: real\<rparr>,
                              py = py ?c - py \<lparr>px = 0 :: real, py = 0\<rparr>\<rparr>"
  have ed: "list_all (\<lambda>e. fst e < length (vertices largeRectangle) \<and>
      snd e < length (vertices largeRectangle)) (edges largeRectangle)"
    by (simp add: largeRectangle_def)
  have "\<exists>m. validateBasicPosition largeRectangle (candidateAt ?c ?d k) = Some (Invalid m)"
    if k: "k < 32" for k
  proof -
    from candidateAt_near[OF normalizeVector_unit k, where c = ?c]
    have "\<bar>px (candidateAt ?c ?d k) - 1000\<bar> \<le> 700"
      "\<bar>py (candidateAt ?c ?d k) - (- 4000 / 3)\<bar> \<le> 700" by simp_all
    then have "\<bar>px (candidateAt ?c ?d k)\<bar> < 3000" "\<bar>py (candidateAt ?c ?d k)\<bar> < 4000"
      by linarith+
    from validateBasicPosition_inside[OF ed inside_largeRectangle[OF this]]
    show ?thesis .
  qed
  then have "searchLoop largeRectangle [2, 1, 0] ?c ?d 0 = Some None"
    by (rule searchLoop_all_invalid)
  then show ?thesis
    by (simp add: findNonIntersectingPosition_def calculateCentroid_largeRectangle
        calculateGraphCenter_largeRectangle Let_def del: One_nat_def)
qed

lemma selection_largeRectangle:
  "length (selectedVertices largeRectangle) = 2"
  "indexOf (periphery largeRectangle) (selectedVertices largeRectangle ! 0) = Some 0"
  "indexOf (periphery largeRectangle) (selectedVertices largeRectangle ! 1) = Some 2"
  by (simp_all add: largeRectangle_def)

lemma getPeripherySegment_largeRectangle:
  "getPeripherySegment largeRectangle 0 2 = Some (map Some [2, 1, 0])"
  apply (simp add: getPeripherySegment_def)
  apply (subst segmentLoop.simps)
  apply (simp add: largeRectangle_def peripheryAtJS_def peripheryAt_def nextPosition_def)
  apply (subst segmentLoop.simps)
  apply (simp add: peripheryAtJS_def peripheryAt_def nextPosition_def)
  apply (subst segmentLoop.simps)
  apply (simp add: peripheryAtJS_def peripheryAt_def)
  done

lemma processSegmentSelection_largeRectangle:
  "processSegmentSelection largeRectangle =
     Some (Failure NoValidPlacement, largeRectangle\<lparr>segmentVertices := [2, 1, 0]\<rparr>)"
proof -
  let ?g1 = "largeRectangle\<lparr>segmentVertices := [2, 1, 0]\<rparr>"
  have search: "findNonIntersectingPosition ?g1 (segmentVertices ?g1) = Some (None, ?g1)"
    using findNonIntersectingPosition_transfer[OF _ _ findNonIntersectingPosition_largeRectangle,
        of ?g1]
    by simp
  have a1: "length (selectedVertices largeRectangle) = 2" by (simp add: largeRectangle_def)
  have a2: "indexOf (periphery largeRectangle) (selectedVertices largeRectangle ! 0) = Some 0"
    by (simp add: largeRectangle_def)
  have a3: "indexOf (periphery largeRectangle) (selectedVertices largeRectangle ! 1) = Some 2"
    by (simp add: largeRectangle_def)
  have a4: "getPeripherySegment largeRectangle 0 2 = Some (map Some [2, 1, 0])"
    apply (simp add: getPeripherySegment_def)
    apply (subst segmentLoop.simps)
    apply (simp add: largeRectangle_def peripheryAtJS_def peripheryAt_def nextPosition_def)
    apply (subst segmentLoop.simps)
    apply (simp add: peripheryAtJS_def peripheryAt_def nextPosition_def)
    apply (subst segmentLoop.simps)
    apply (simp add: peripheryAtJS_def peripheryAt_def)
    done
  have "processSegmentSelection largeRectangle = placeVertex ?g1 0 2"
    by (rule processSegmentSelection_eval[OF a1 a2 a3 a4]) simp
  also have "\<dots> = Some (Failure NoValidPlacement, ?g1)"
    by (rule placeVertex_none[OF search])
  finally show ?thesis .
qed

subsection \<open>The collinear points\<close>

lemma visibleVertices_farFirst:
  "visibleVertices collinearFarFirst =
     [(0, \<lparr>px = 0, py = 0, visible = True, vid = 1\<rparr>),
      (1, \<lparr>px = 2, py = 0, visible = True, vid = 2\<rparr>),
      (2, \<lparr>px = 1, py = 0, visible = True, vid = 3\<rparr>)]"
  by (simp add: visibleVertices_def collinearFarFirst_def enumerate_eq_zip upt_0_3)

lemma hullStart_farFirst: "hullStart (visibleVertices collinearFarFirst) = 0"
  by (simp add: visibleVertices_farFirst hullStart_def upt_1_3)

lemma sortedPoints_farFirst:
  "sortedPoints (visibleVertices collinearFarFirst) 0 =
     [(1, \<lparr>px = 2, py = 0, visible = True, vid = 2\<rparr>),
      (2, \<lparr>px = 1, py = 0, visible = True, vid = 3\<rparr>)]"
  by (simp add: sortedPoints_def visibleVertices_farFirst enumerate_eq_zip upt_0_3
      polarAngle_def atan2_def)

lemma getConvexHull_farFirst:
  "getConvexHull collinearFarFirst =
     [(0, \<lparr>px = 0, py = 0, visible = True, vid = 1\<rparr>),
      (2, \<lparr>px = 1, py = 0, visible = True, vid = 3\<rparr>)]"
  unfolding getConvexHull_def Let_def hullStart_farFirst sortedPoints_farFirst
  by (simp add: visibleVertices_farFirst hullPop.simps ccw_def ipos_def pos_def boolToNumber_def)

lemma visibleVertices_nearFirst:
  "visibleVertices collinearNearFirst =
     [(0, \<lparr>px = 0, py = 0, visible = True, vid = 1\<rparr>),
      (1, \<lparr>px = 1, py = 0, visible = True, vid = 3\<rparr>),
      (2, \<lparr>px = 2, py = 0, visible = True, vid = 2\<rparr>)]"
  by (simp add: visibleVertices_def collinearNearFirst_def enumerate_eq_zip upt_0_3)

lemma hullStart_nearFirst: "hullStart (visibleVertices collinearNearFirst) = 0"
  by (simp add: visibleVertices_nearFirst hullStart_def upt_1_3)

lemma sortedPoints_nearFirst:
  "sortedPoints (visibleVertices collinearNearFirst) 0 =
     [(1, \<lparr>px = 1, py = 0, visible = True, vid = 3\<rparr>),
      (2, \<lparr>px = 2, py = 0, visible = True, vid = 2\<rparr>)]"
  by (simp add: sortedPoints_def visibleVertices_nearFirst enumerate_eq_zip upt_0_3
      polarAngle_def atan2_def)

lemma getConvexHull_nearFirst:
  "getConvexHull collinearNearFirst =
     [(0, \<lparr>px = 0, py = 0, visible = True, vid = 1\<rparr>),
      (2, \<lparr>px = 2, py = 0, visible = True, vid = 2\<rparr>)]"
  unfolding getConvexHull_def Let_def hullStart_nearFirst sortedPoints_nearFirst
  by (simp add: visibleVertices_nearFirst hullPop.simps ccw_def ipos_def pos_def boolToNumber_def)

section \<open>Placement search\<close>

lemma candidateAt_spec: "candidateAt centroid direction k = specCandidate centroid direction k"
  by (simp add: candidateAt_def specCandidate_def rotateVector_def degrees_def Let_def
      algebra_simps)

lemma searchLoop_firstPassing:
  "k \<le> 32 \<Longrightarrow>
   searchLoop g segs centroid direction k =
     firstPassing g segs (map (specCandidate centroid direction) [k..<32])"
proof (induction "32 - k" arbitrary: k)
  case 0
  then show ?case by (simp add: searchLoop.simps)
next
  case (Suc n)
  then have n: "n = 32 - (k + 1)" and k: "k < 32" "k + 1 \<le> 32" by simp_all
  have u: "[k..<32] = k # [Suc k..<32]" using k(1) by (simp add: upt_conv_Cons)
  have ih: "searchLoop g segs centroid direction (Suc k) =
      firstPassing g segs (map (specCandidate centroid direction) [Suc k..<32])"
    using Suc.hyps(1)[OF n k(2)] by simp
  show ?case
    unfolding u
    by (subst searchLoop.simps)
      (auto simp: k(1) ih Let_def candidateAt_spec passesChecks_def
        split: option.splits validation.splits)
qed

text \<open>
  Claim C3. The placement search makes at most 32 attempts. Attempt \<open>k\<close>, for \<open>k\<close> from 0 to 31,
  puts its candidate at the segment centroid plus the base direction rotated by
  \<open>(k mod 8) * 45\<close> degrees and scaled by the distance \<open>80 + 20 * k\<close>. The search returns the
  first candidate that passes the distance, margin and intersection checks, and \<open>null\<close> when all
  32 fail: the loop of the source computes what \<^const>\<open>specPlacementSearch\<close> describes.
\<close>

theorem placement_search_refines_specification:
  "map_option fst (findNonIntersectingPosition g segs) = specPlacementSearch g segs"
  by (simp add: findNonIntersectingPosition_def specPlacementSearch_def Let_def
      searchLoop_firstPassing split: option.splits)

text \<open>
  Claim C8. The call of \<open>findNonIntersectingPosition\<close> that previews a placement changes no
  graph state: whenever it returns, the graph is the one it was called on, and so are its vertex
  list, edge list, periphery, selection and segment-vertex list.
\<close>

theorem placement_search_frame:
  assumes "findNonIntersectingPosition g segs = Some (r, g')"
  shows "g' = g \<and> vertices g' = vertices g \<and> edges g' = edges g \<and>
         periphery g' = periphery g \<and> selectedVertices g' = selectedVertices g \<and>
         segmentVertices g' = segmentVertices g"
  using findNonIntersectingPosition_state[OF assms] by simp

text \<open>
  The search on the initial triangle and the segment of V2 and V3 returns the position
  \<open>(0, 130)\<close> and leaves the graph as it was.
\<close>

theorem placement_search_frame_witness:
  "findNonIntersectingPosition newGraph [1, 2] = Some (Some \<lparr>px = 0, py = 130\<rparr>, newGraph) \<and>
   (newGraph = newGraph \<and> vertices newGraph = vertices newGraph \<and>
    edges newGraph = edges newGraph \<and> periphery newGraph = periphery newGraph \<and>
    selectedVertices newGraph = selectedVertices newGraph \<and>
    segmentVertices newGraph = segmentVertices newGraph)"
  by (rule conjI[OF findNonIntersectingPosition_newGraph
        placement_search_frame[OF findNonIntersectingPosition_newGraph]])

text \<open>
  Claim C2. For every graph and every selected segment: if the placement search returns no
  candidate, the insertion returns a failure result, and the vertex list, the edge list and the
  periphery are what they were before the call. The selected segment is the one that
  \<open>processSegmentSelection\<close> derives from the two selected vertices.
\<close>

theorem no_placement_leaves_graph_unchanged:
  assumes "length (selectedVertices g) = 2"
    and "indexOf (periphery g) (selectedVertices g ! 0) = Some p1"
    and "indexOf (periphery g) (selectedVertices g ! 1) = Some p2"
    and "getPeripherySegment g p1 p2 = Some (map Some segs)"
    and "2 \<le> length segs"
    and "map_option fst (findNonIntersectingPosition g segs) = Some None"
  shows "\<exists>g'. processSegmentSelection g = Some (Failure NoValidPlacement, g') \<and>
           vertices g' = vertices g \<and> edges g' = edges g \<and> periphery g' = periphery g"
proof -
  let ?g1 = "g\<lparr>segmentVertices := segs\<rparr>"
  from assms(6) obtain g0 where "findNonIntersectingPosition g segs = Some (None, g0)" by auto
  then have "findNonIntersectingPosition ?g1 (segmentVertices ?g1) = Some (None, ?g1)"
    using findNonIntersectingPosition_transfer[of ?g1 g segs None g0] by simp
  then have "placeVertex ?g1 p1 p2 = Some (Failure NoValidPlacement, ?g1)"
    by (simp add: placeVertex_def)
  then have "processSegmentSelection g = Some (Failure NoValidPlacement, ?g1)"
    using processSegmentSelection_eval[OF assms(1-5)] by simp
  then show ?thesis by simp
qed

text \<open>
  On the large rectangle the search finds no position and the insertion fails.
\<close>

theorem no_placement_leaves_graph_unchanged_witness:
  "(length (selectedVertices largeRectangle) = 2 \<and>
    indexOf (periphery largeRectangle) (selectedVertices largeRectangle ! 0) = Some 0 \<and>
    indexOf (periphery largeRectangle) (selectedVertices largeRectangle ! 1) = Some 2 \<and>
    getPeripherySegment largeRectangle 0 2 = Some (map Some [2, 1, 0]) \<and>
    2 \<le> length [2 :: nat, 1, 0] \<and>
    map_option fst (findNonIntersectingPosition largeRectangle [2, 1, 0]) = Some None) \<and>
   (\<exists>g'. processSegmentSelection largeRectangle = Some (Failure NoValidPlacement, g') \<and>
      vertices g' = vertices largeRectangle \<and> edges g' = edges largeRectangle \<and>
      periphery g' = periphery largeRectangle)"
proof -
  have len: "2 \<le> length [2 :: nat, 1, 0]" by simp
  have search: "map_option fst (findNonIntersectingPosition largeRectangle [2, 1, 0]) = Some None"
    by (simp add: findNonIntersectingPosition_largeRectangle del: One_nat_def)
  note h = selection_largeRectangle getPeripherySegment_largeRectangle len search
  show ?thesis
    by (intro conjI h no_placement_leaves_graph_unchanged[OF h])
qed

section \<open>Convex hull: points with equal polar angle\<close>

text \<open>
  Claim C4, as amended. The comparator of the sort is the difference of the two angles and
  knows no distance. Points with the same polar angle around the anchor keep the order they have
  in the list of visible vertices: for every angle \<open>t\<close>, the points of angle \<open>t\<close> appear in the
  sorted sweep input in the order in which they appear in the input of the sort. The output is a
  function of the vertex list, so it is the same on every run for a fixed vertex list.
\<close>

theorem equal_angles_keep_list_order:
  "filter (\<lambda>p. polarAngle (vs ! start) p = t) (sortedPoints vs start) =
   filter (\<lambda>p. polarAngle (vs ! start) p = t)
     (map snd (filter (\<lambda>ka. fst ka \<noteq> start) (enumerate 0 vs)))"
  unfolding sortedPoints_def by (rule sort_key_stable)

text \<open>
  The claim as written orders equal angles by ascending distance. With the far point stored
  first, the sorted sweep input lists the far point \<open>(2, 0)\<close> before the near point \<open>(1, 0)\<close>,
  and the sweep then drops the far point from the hull; with the near point stored first, the
  same three points give the hull that ends in \<open>(2, 0)\<close>.
\<close>

theorem tie_order_counterexample:
  "sortedPoints (visibleVertices collinearFarFirst) (hullStart (visibleVertices collinearFarFirst)) =
     [(1, \<lparr>px = 2, py = 0, visible = True, vid = 2\<rparr>),
      (2, \<lparr>px = 1, py = 0, visible = True, vid = 3\<rparr>)] \<and>
   polarAngle (0, \<lparr>px = 0, py = 0, visible = True, vid = 1\<rparr>)
       (1, \<lparr>px = 2, py = 0, visible = True, vid = 2\<rparr>) =
     polarAngle (0, \<lparr>px = 0, py = 0, visible = True, vid = 1\<rparr>)
       (2, \<lparr>px = 1, py = 0, visible = True, vid = 3\<rparr>) \<and>
   distance \<lparr>px = 0, py = 0\<rparr> \<lparr>px = 1, py = 0\<rparr> < distance \<lparr>px = 0, py = 0\<rparr> \<lparr>px = 2, py = 0\<rparr> \<and>
   map ipos (getConvexHull collinearFarFirst) = [\<lparr>px = 0, py = 0\<rparr>, \<lparr>px = 1, py = 0\<rparr>] \<and>
   map ipos (getConvexHull collinearNearFirst) = [\<lparr>px = 0, py = 0\<rparr>, \<lparr>px = 2, py = 0\<rparr>]"
  by (simp add: hullStart_farFirst sortedPoints_farFirst getConvexHull_farFirst
      getConvexHull_nearFirst polarAngle_def atan2_def distance_def ipos_def pos_def)

section \<open>Orientation of the periphery\<close>









section \<open>Rollback\<close>

text \<open>
  Claim C1, as amended. If the integrity scan after the commit detects a crossing, the insertion
  is rolled back: the vertex list and the edge list are equal to what they were before the
  attempt, and the periphery is the one that \<open>updatePeriphery\<close> computes for the graph, the
  re-oriented convex hull of the visible vertices. The rollback recomputes the periphery; it does
  not restore it.
\<close>

theorem rollback_restores_vertices_and_edges:
  assumes "processSegmentSelection g = Some (Failure (RolledBack m), g')"
  shows "vertices g' = vertices g \<and> edges g' = edges g \<and>
         map_option periphery (updatePeriphery g) = Some (periphery g')"
  using processSegmentSelection_result[OF assms] by auto

text \<open>
  The insertion below the bottom side of the rectangle with crossing diagonals is rolled back.
\<close>

theorem rollback_restores_vertices_and_edges_witness:
  "processSegmentSelection crossedGraph =
     Some (Failure (RolledBack (CrossingDetected 1 3 2 4)), crossedRolledBack) \<and>
   (vertices crossedRolledBack = vertices crossedGraph \<and>
    edges crossedRolledBack = edges crossedGraph \<and>
    map_option periphery (updatePeriphery crossedGraph) = Some (periphery crossedRolledBack))"
  by (rule conjI[OF processSegmentSelection_crossed_rolledBack
        rollback_restores_vertices_and_edges[OF processSegmentSelection_crossed_rolledBack]])

text \<open>
  The claim as written has the periphery equal to the one before the attempt. The rolled-back
  insertion on the rectangle starts from the periphery \<open>[0, 3, 2, 1]\<close> and ends with
  \<open>[2, 1, 0, 3]\<close>, the same cycle started at another corner.
\<close>

theorem rollback_periphery_counterexample:
  "processSegmentSelection crossedGraph =
     Some (Failure (RolledBack (CrossingDetected 1 3 2 4)), crossedRolledBack) \<and>
   periphery crossedGraph = [0, 3, 2, 1] \<and>
   periphery crossedRolledBack = [2, 1, 0, 3] \<and>
   periphery crossedRolledBack \<noteq> periphery crossedGraph"
  using processSegmentSelection_crossed_rolledBack
  by (simp add: crossedRolledBack_def crossedGraph_def)

section \<open>Selection and result of an insertion attempt\<close>

lemma addRandomSegment_cases:
  assumes "addRandomSegment g r1 r2 = Some (out, g')"
  shows "(length (periphery g) < 2 \<and> out = Failure NeedTwoPeripheryVertices \<and> g' = g) \<or>
         (2 \<le> length (periphery g) \<and>
          (\<exists>sel g2. processSegmentSelection (g\<lparr>selectedVertices := sel\<rparr>) = Some (out, g2) \<and>
             g' = g2\<lparr>selectedVertices := [], segmentVertices := []\<rparr>))"
  using assms
  by (auto simp: addRandomSegment_def Let_def split: if_splits option.splits)

text \<open>
  Claim C5, as amended. After a successful \<open>processSegmentSelection\<close> the selection list and
  the segment-vertex list are both empty, and they are both empty after every
  \<open>addRandomSegment\<close> on a periphery of at least two vertices, whether the insertion succeeded
  or failed.
\<close>

theorem selection_cleared_after_attempt:
  "(processSegmentSelection g = Some (Success i k, g') \<longrightarrow>
      selectedVertices g' = [] \<and> segmentVertices g' = []) \<and>
   (2 \<le> length (periphery g) \<and> addRandomSegment g r1 r2 = Some (out, g'') \<longrightarrow>
      selectedVertices g'' = [] \<and> segmentVertices g'' = [])"
proof (rule conjI; rule impI)
  assume "processSegmentSelection g = Some (Success i k, g')"
  from processSegmentSelection_result[OF this]
  show "selectedVertices g' = [] \<and> segmentVertices g' = []" by auto
next
  assume "2 \<le> length (periphery g) \<and> addRandomSegment g r1 r2 = Some (out, g'')"
  then have "2 \<le> length (periphery g)" "addRandomSegment g r1 r2 = Some (out, g'')" by simp_all
  from addRandomSegment_cases[OF this(2)] this(1)
  show "selectedVertices g'' = [] \<and> segmentVertices g'' = []" by auto
qed

text \<open>
  The insertion on the initial triangle succeeds, called directly and through
  \<open>addRandomSegment\<close> with the random numbers 0 and 2/5.
\<close>

theorem selection_cleared_after_attempt_witness:
  "processSegmentSelection triangleSelected = Some (Success 4 0, triangleInserted) \<and>
   (selectedVertices triangleInserted = [] \<and> segmentVertices triangleInserted = []) \<and>
   (2 \<le> length (periphery newGraph) \<and>
    addRandomSegment newGraph 0 (2 / 5) = Some (Success 4 0, triangleInserted)) \<and>
   (selectedVertices triangleInserted = [] \<and> segmentVertices triangleInserted = [])"
proof -
  have r: "2 \<le> length (periphery newGraph) \<and>
      addRandomSegment newGraph 0 (2 / 5) = Some (Success 4 0, triangleInserted)"
    by (simp add: periphery_newGraph addRandomSegment_newGraph)
  show ?thesis
    by (intro conjI processSegmentSelection_triangle
        selection_cleared_after_attempt[THEN conjunct1, THEN mp, OF processSegmentSelection_triangle]
        r[THEN conjunct1] r[THEN conjunct2]
        selection_cleared_after_attempt[THEN conjunct2, THEN mp, OF r])
qed

text \<open>
  The claim as written has both lists empty after a failed attempt as well. A failed
  \<open>processSegmentSelection\<close> returns before its clearing step: after the search found no
  position on the large rectangle, and after the rollback on the rectangle with crossing
  diagonals, the selection is still there and the segment-vertex list holds the segment.
\<close>

theorem selection_kept_counterexample:
  "processSegmentSelection largeRectangle =
     Some (Failure NoValidPlacement, largeRectangle\<lparr>segmentVertices := [2, 1, 0]\<rparr>) \<and>
   selectedVertices (largeRectangle\<lparr>segmentVertices := [2, 1, 0]\<rparr>) = [2, 0] \<and>
   segmentVertices (largeRectangle\<lparr>segmentVertices := [2, 1, 0]\<rparr>) = [2, 1, 0] \<and>
   processSegmentSelection crossedGraph =
     Some (Failure (RolledBack (CrossingDetected 1 3 2 4)), crossedRolledBack) \<and>
   selectedVertices crossedRolledBack = [3, 2] \<and>
   segmentVertices crossedRolledBack = [3, 2]"
  using processSegmentSelection_largeRectangle processSegmentSelection_crossed_rolledBack
  by (simp add: largeRectangle_def crossedRolledBack_def crossedGraph_def)

text \<open>
  Claim C6. On the initial triangle with V2 and V3 selected the segment has two vertices and the
  insertion succeeds with the new vertex V4. The result carries the identifier 4, but the segment
  size it reports is 0: the success message reads \<open>this.segmentVertices.length\<close> after the list
  was emptied.
\<close>

theorem success_message_reports_empty_segment:
  "getPeripherySegment triangleSelected 1 2 = Some [Some 1, Some 2] \<and>
   processSegmentSelection triangleSelected = Some (Success 4 0, triangleInserted)"
proof -
  have "getPeripherySegment triangleSelected 1 2 = Some [Some 1, Some 2]"
    apply (simp add: getPeripherySegment_def)
    apply (subst segmentLoop.simps)
    apply (simp add: triangleSelected_def periphery_newGraph peripheryAtJS_def peripheryAt_def
        nextPosition_def)
    apply (subst segmentLoop.simps)
    apply (simp add: peripheryAtJS_def peripheryAt_def periphery_newGraph)
    done
  then show ?thesis using processSegmentSelection_triangle by simp
qed

section \<open>The identifier counter\<close>

lemma idsBounded_append:
  "idsBounded g \<Longrightarrow> maxVertexId g' = maxVertexId g + 1 \<Longrightarrow>
   vertices g' = vertices g @ [v] \<Longrightarrow> vid v = maxVertexId g + 1 \<Longrightarrow> idsBounded g'"
  by (auto simp: idsBounded_def list_all_iff)

lemma idsBounded_mono:
  "idsBounded g \<Longrightarrow> maxVertexId g \<le> maxVertexId g' \<Longrightarrow> vertices g' = vertices g \<Longrightarrow>
   idsBounded g'"
  by (auto simp: idsBounded_def list_all_iff)

lemma processSegmentSelection_counter:
  assumes "processSegmentSelection g = Some (out, g')"
  shows "maxVertexId g \<le> maxVertexId g' \<and>
         (idsBounded g \<longrightarrow> idsBounded g') \<and>
         (\<forall>i k. out = Success i k \<longrightarrow>
            i = maxVertexId g + 1 \<and> maxVertexId g' = i \<and>
            map vid (vertices g') = map vid (vertices g) @ [i] \<and>
            (idsBounded g \<longrightarrow> list_all (\<lambda>v. vid v < i) (vertices g))) \<and>
         (\<forall>m. out = Failure (RolledBack m) \<longrightarrow>
            maxVertexId g' = maxVertexId g + 1 \<and> vertices g' = vertices g)"
proof -
  from processSegmentSelection_result[OF assms]
  consider (other) f where "out = Failure f" "\<forall>m. f \<noteq> RolledBack m"
      "vertices g' = vertices g" "maxVertexId g' = maxVertexId g"
    | (rolled) m where "out = Failure (RolledBack m)" "vertices g' = vertices g"
      "maxVertexId g' = maxVertexId g + 1"
    | (success) newPosition :: point where "out = Success (maxVertexId g + 1) 0"
      "vertices g' = vertices g @
        [\<lparr>px = px newPosition, py = py newPosition, visible = True, vid = maxVertexId g + 1\<rparr>]"
      "maxVertexId g' = maxVertexId g + 1"
    by blast
  then show ?thesis
  proof cases
    case other
    then show ?thesis by (auto intro: idsBounded_mono)
  next
    case rolled
    then show ?thesis by (auto intro: idsBounded_mono)
  next
    case success
    have "idsBounded g \<Longrightarrow> idsBounded g'"
      by (rule idsBounded_append[OF _ success(3) success(2)]) simp_all
    moreover have "idsBounded g \<Longrightarrow> list_all (\<lambda>v. vid v < maxVertexId g + 1) (vertices g)"
      by (auto simp: idsBounded_def list_all_iff)
    ultimately show ?thesis using success by auto
  qed
qed

text \<open>
  Claim C9, as amended. Across every insertion attempt, through \<open>processSegmentSelection\<close> or
  \<open>addRandomSegment\<close>, the counter \<open>maxVertexId\<close> does not decrease, and identifiers that are at
  most the counter stay so. A successful insertion gives the new vertex the identifier
  \<open>maxVertexId + 1\<close>, which is greater than every identifier in the vertex list. A rolled-back
  insertion leaves the vertex list as it was and the counter incremented, so the identifier of
  the popped vertex is not given out again.
\<close>

theorem maxVertexId_monotone:
  assumes "processSegmentSelection g = Some (out, g') \<or> addRandomSegment g r1 r2 = Some (out, g')"
  shows "maxVertexId g \<le> maxVertexId g' \<and>
         (idsBounded g \<longrightarrow> idsBounded g') \<and>
         (\<forall>i k. out = Success i k \<longrightarrow>
            i = maxVertexId g + 1 \<and> maxVertexId g' = i \<and>
            map vid (vertices g') = map vid (vertices g) @ [i] \<and>
            (idsBounded g \<longrightarrow> list_all (\<lambda>v. vid v < i) (vertices g))) \<and>
         (\<forall>m. out = Failure (RolledBack m) \<longrightarrow>
            maxVertexId g' = maxVertexId g + 1 \<and> vertices g' = vertices g)"
  using assms
proof
  assume "processSegmentSelection g = Some (out, g')"
  then show ?thesis by (rule processSegmentSelection_counter)
next
  assume "addRandomSegment g r1 r2 = Some (out, g')"
  from addRandomSegment_cases[OF this] show ?thesis
  proof (elim disjE conjE exE)
    assume "out = Failure NeedTwoPeripheryVertices" "g' = g"
    then show ?thesis by simp
  next
    fix sel g2
    assume p: "processSegmentSelection (g\<lparr>selectedVertices := sel\<rparr>) = Some (out, g2)"
      and g': "g' = g2\<lparr>selectedVertices := [], segmentVertices := []\<rparr>"
    have b: "idsBounded (g\<lparr>selectedVertices := sel\<rparr>) = idsBounded g"
      "idsBounded g' = idsBounded g2"
      by (simp_all add: idsBounded_def g')
    from processSegmentSelection_counter[OF p] show ?thesis
      unfolding b by (simp add: g')
  qed
qed

text \<open>
  The successful insertion on the initial triangle and the rolled-back insertion on the
  rectangle with crossing diagonals.
\<close>

theorem maxVertexId_monotone_witness:
  "(processSegmentSelection triangleSelected = Some (Success 4 0, triangleInserted) \<and>
    idsBounded triangleSelected \<and>
    maxVertexId triangleSelected \<le> maxVertexId triangleInserted \<and>
    idsBounded triangleInserted \<and>
    4 = maxVertexId triangleSelected + 1 \<and>
    map vid (vertices triangleInserted) = map vid (vertices triangleSelected) @ [4] \<and>
    list_all (\<lambda>v. vid v < 4) (vertices triangleSelected)) \<and>
   (processSegmentSelection crossedGraph =
      Some (Failure (RolledBack (CrossingDetected 1 3 2 4)), crossedRolledBack) \<and>
    maxVertexId crossedRolledBack = maxVertexId crossedGraph + 1 \<and>
    vertices crossedRolledBack = vertices crossedGraph)"
proof -
  have b: "idsBounded triangleSelected"
    by (simp add: idsBounded_def triangleSelected_def newGraph_def initializeTriangle_def)
  note t = maxVertexId_monotone[OF disjI1[OF processSegmentSelection_triangle]]
  note c = maxVertexId_monotone[OF disjI1[OF processSegmentSelection_crossed_rolledBack]]
  from t b have "maxVertexId triangleSelected \<le> maxVertexId triangleInserted"
    "idsBounded triangleInserted" "4 = maxVertexId triangleSelected + 1"
    "map vid (vertices triangleInserted) = map vid (vertices triangleSelected) @ [4]"
    "list_all (\<lambda>v. vid v < 4) (vertices triangleSelected)"
    by blast+
  moreover from c have "maxVertexId crossedRolledBack = maxVertexId crossedGraph + 1"
    "vertices crossedRolledBack = vertices crossedGraph"
    by blast+
  ultimately show ?thesis
    using b processSegmentSelection_triangle processSegmentSelection_crossed_rolledBack
    by (intro conjI)
qed

text \<open>
  The claim as written speaks of every operation. \<open>initializeTriangle\<close>, the reset of the
  editor, sets the counter back to 3: after the insertion of V4 the counter is 4, after the reset
  it is 3, and the next insertion gives out the identifier 4 again.
\<close>

theorem reset_lowers_counter_counterexample:
  "maxVertexId triangleInserted = 4 \<and> maxVertexId (initializeTriangle triangleInserted) = 3"
  by (simp add: triangleInserted_def initializeTriangle_def)

end
